theory Spec2Isabelle
  imports Main
begin

section \<open>Errors and JavaScript values\<close>

text \<open>
  A rejected promise or thrown exception of \<^verbatim>\<open>src/github.ts\<close> is a value of
  type \<open>error\<close>. A failure of one of the injected request capabilities that carries a
  numeric \<^verbatim>\<open>status\<close> is \<open>HttpError\<close>; \<^verbatim>\<open>new Error(msg)\<close> is \<open>PlainError\<close> and
  has no \<^verbatim>\<open>status\<close> property; \<open>TypeError\<close> is what the runtime or the semver library
  throws. \<open>status\<close> reads \<^verbatim>\<open>err.status\<close>, \<open>None\<close> standing for \<^verbatim>\<open>undefined\<close>.
\<close>

datatype error = HttpError nat | PlainError string | TypeError string

fun status :: "error \<Rightarrow> nat option" where
  "status (HttpError s) = Some s"
| "status (PlainError m) = None"
| "status (TypeError m) = None"

text \<open>Truthiness of an optional string: \<^verbatim>\<open>undefined\<close> and \<^verbatim>\<open>''\<close> are falsy.\<close>

fun truthy :: "string option \<Rightarrow> bool" where
  "truthy None = False"
| "truthy (Some s) = (s \<noteq> [])"

text \<open>A template literal renders \<^verbatim>\<open>undefined\<close> as the text \<^verbatim>\<open>undefined\<close>.\<close>

fun template :: "string option \<Rightarrow> string" where
  "template None = ''undefined''"
| "template (Some s) = s"

text \<open>\<^verbatim>\<open>s.startsWith(p)\<close>, and the rest of \<open>s\<close> after \<open>p\<close> when it does.\<close>

fun strip_prefix :: "string \<Rightarrow> string \<Rightarrow> string option" where
  "strip_prefix [] s = Some s"
| "strip_prefix (p # ps) [] = None"
| "strip_prefix (p # ps) (c # cs) = (if p = c then strip_prefix ps cs else None)"

definition startsWith :: "string \<Rightarrow> string \<Rightarrow> bool" where
  "startsWith s p = (strip_prefix p s \<noteq> None)"

text \<open>\<^verbatim>\<open>s.includes(p)\<close>: \<open>p\<close> occurs in \<open>s\<close> at some position.\<close>

fun js_includes :: "string \<Rightarrow> string \<Rightarrow> bool" where
  "js_includes [] p = (p = [])"
| "js_includes (c # cs) p = (startsWith (c # cs) p \<or> js_includes cs p)"

text \<open>
  \<^verbatim>\<open>s.replace(p, '')\<close> with a string pattern: the first occurrence of \<open>p\<close> is
  removed, and \<open>s\<close> is unchanged when there is none.
\<close>

fun remove_first :: "string \<Rightarrow> string \<Rightarrow> string" where
  "remove_first p [] = []"
| "remove_first p (c # cs) =
     (case strip_prefix p (c # cs) of
        Some rest \<Rightarrow> rest
      | None \<Rightarrow> c # remove_first p cs)"

text \<open>\<^verbatim>\<open>s.split(c)\<close> for a separator of one character.\<close>

fun js_split :: "char \<Rightarrow> string \<Rightarrow> string list" where
  "js_split sep [] = [[]]"
| "js_split sep (c # cs) =
     (if c = sep then [] # js_split sep cs
      else (case js_split sep cs of
              [] \<Rightarrow> [[c]]
            | piece # pieces \<Rightarrow> (c # piece) # pieces))"

text \<open>\<^verbatim>\<open>s.padStart(n, '0')\<close>.\<close>

definition padStart :: "nat \<Rightarrow> string \<Rightarrow> string" where
  "padStart n s = replicate (n - length s) (CHR ''0'') @ s"

definition digit :: "char \<Rightarrow> bool" where
  "digit c = (c \<in> set ''0123456789'')"

definition letter :: "char \<Rightarrow> bool" where
  "letter c = (c \<in> set ''abcdefghijklmnopqrstuvwxyzABCDEFGHIJKLMNOPQRSTUVWXYZ'')"

text \<open>The line terminators that \<^verbatim>\<open>.\<close> of a regular expression does not match.\<close>

definition line_terminator :: "char \<Rightarrow> bool" where
  "line_terminator c = (c = CHR 0x0A \<or> c = CHR 0x0D)"

section \<open>The instance, its capabilities and the requests it issues\<close>

record Commit =
  sha :: string
  message :: string

record CommitsResponse =
  commits :: "Commit list"
  hasNextPage :: bool
  endCursor :: "string option"

text \<open>The \<^verbatim>\<open>head\<close> and \<^verbatim>\<open>base\<close> of a pull request of the listing.\<close>

record branch_ref =
  label :: string
  ref :: string

record pull =
  number :: nat
  labels :: "string list"
  head :: "branch_ref option"
  base :: "branch_ref option"
  merged_at :: "string option"
  merge_commit_sha :: string
  body :: "string option"

record tag_item =
  item_name :: string
  item_commit_sha :: string

record file_data =
  content :: string
  blob_sha :: string

record tree_entry =
  path :: string
  entry_sha :: string

text \<open>
  The change set handed to \<^verbatim>\<open>createPullRequest\<close>: the \<^verbatim>\<open>Map\<close> from a path to
  its new content and file mode, in insertion order.
\<close>

type_synonym changes = "(string \<times> string \<times> string) list"

record pr_options =
  upstreamOwner :: string
  upstreamRepo :: string
  title :: string
  branch :: string
  description :: string
  primary :: string
  force :: bool
  fork :: bool
  commit_message :: string

text \<open>
  \<open>call\<close> names a request sent through one of the injected capabilities
  (\<^verbatim>\<open>this.request\<close>, \<^verbatim>\<open>this.graphql\<close>, \<^verbatim>\<open>this.octokit\<close>) or to the
  \<^verbatim>\<open>createPullRequest\<close> collaborator, with the parameters that select the answer.
  \<open>Graphql\<close> carries whether the query is \<^verbatim>\<open>commitsWithLabels\<close> and the cursor;
  \<open>PullsList\<close> the \<^verbatim>\<open>state\<close> and \<^verbatim>\<open>per_page\<close>.
\<close>

datatype call =
    ReposGet
  | Graphql bool "string option"
  | PullsList string nat
  | TagsList
  | ContentsGet string string
  | TreeGet string
  | BlobGet string
  | CreatePullRequest changes pr_options
  | PullsPatch nat string string string


text \<open>
  What the hosting service answers. The commit-history query may answer differently
  on each attempt: its first argument is the number of requests the instance has issued
  before this one.
\<close>

record api =
  repos_get :: "error + string"
  graphql_commits :: "nat \<Rightarrow> bool \<Rightarrow> string option \<Rightarrow> error + CommitsResponse"
  pulls_list :: "string \<Rightarrow> nat \<Rightarrow> error + pull list"
  tags_list :: "error + tag_item list list"
  contents_get :: "string \<Rightarrow> string \<Rightarrow> error + file_data"
  tree_get :: "string \<Rightarrow> error + tree_entry list"
  blob_get :: "string \<Rightarrow> error + file_data"
  create_pull_request :: "changes \<Rightarrow> pr_options \<Rightarrow> error + nat"
  pulls_patch :: "nat \<Rightarrow> string \<Rightarrow> string \<Rightarrow> string \<Rightarrow> error + unit"

text \<open>
  The fields of \<^verbatim>\<open>class GitHub\<close>. \<open>issued\<close> is not a field of the class: it
  records the requests the instance has issued so far, oldest first.
\<close>

record GitHub =
  defaultBranch :: "string option"
  token :: "string option"
  owner :: string
  repo :: string
  apiUrl :: string
  proxyKey :: "string option"
  issued :: "call list"

definition issue :: "call \<Rightarrow> GitHub \<Rightarrow> GitHub" where
  "issue c gh = gh\<lparr>issued := issued gh @ [c]\<rparr>"

text \<open>\<^verbatim>\<open>getDefaultBranch\<close>: the memoized branch when it is truthy, else one request.\<close>

definition getDefaultBranch :: "api \<Rightarrow> GitHub \<Rightarrow> (error + string) \<times> GitHub" where
  "getDefaultBranch a gh =
     (if truthy (defaultBranch gh) then (Inr (the (defaultBranch gh)), gh)
      else (case repos_get a of
              Inl err \<Rightarrow> (Inl err, issue ReposGet gh)
            | Inr b \<Rightarrow> (Inr b, (issue ReposGet gh)\<lparr>defaultBranch := Some b\<rparr>)))"

definition getBaseLabel :: "api \<Rightarrow> GitHub \<Rightarrow> (error + string) \<times> GitHub" where
  "getBaseLabel a gh =
     (case getDefaultBranch a gh of
        (Inl err, gh') \<Rightarrow> (Inl err, gh')
      | (Inr baseBranch, gh') \<Rightarrow> (Inr (owner gh' @ '':'' @ baseBranch), gh'))"

section \<open>Open release pull requests\<close>

text \<open>
  The inner loop of \<^verbatim>\<open>findOpenReleasePRs\<close> over the expected labels, started with
  \<^verbatim>\<open>hasAllLabels = false\<close>: it stops at the first label that is not observed.
\<close>

fun expected_labels_loop :: "string list \<Rightarrow> string list \<Rightarrow> bool \<Rightarrow> bool" where
  "expected_labels_loop [] observedLabels hasAllLabels = hasAllLabels"
| "expected_labels_loop (expectedLabel # rest) observedLabels hasAllLabels =
     (if expectedLabel \<in> set observedLabels
      then expected_labels_loop rest observedLabels True
      else False)"

text \<open>The loop over the pulls of the response, \<open>openReleasePRs\<close> accumulating.\<close>

fun open_pulls_loop :: "string \<Rightarrow> string list \<Rightarrow> pull list \<Rightarrow> pull list \<Rightarrow> pull list" where
  "open_pulls_loop baseLabel lbls [] openReleasePRs = openReleasePRs"
| "open_pulls_loop baseLabel lbls (p # ps) openReleasePRs =
     (case base p of
        None \<Rightarrow> open_pulls_loop baseLabel lbls ps openReleasePRs
      | Some b \<Rightarrow>
          if label b \<noteq> baseLabel then open_pulls_loop baseLabel lbls ps openReleasePRs
          else if expected_labels_loop lbls (labels p) False
               then open_pulls_loop baseLabel lbls ps (openReleasePRs @ [p])
               else open_pulls_loop baseLabel lbls ps openReleasePRs)"

definition findOpenReleasePRs ::
  "api \<Rightarrow> string list \<Rightarrow> nat \<Rightarrow> GitHub \<Rightarrow> (error + pull list) \<times> GitHub" where
  "findOpenReleasePRs a lbls perPage gh =
     (case getBaseLabel a gh of
        (Inl err, gh1) \<Rightarrow> (Inl err, gh1)
      | (Inr baseLabel, gh1) \<Rightarrow>
          (case pulls_list a ''open'' perPage of
             Inl err \<Rightarrow> (Inl err, issue (PullsList ''open'' perPage) gh1)
           | Inr pulls \<Rightarrow>
               (Inr (open_pulls_loop baseLabel lbls pulls []),
                issue (PullsList ''open'' perPage) gh1)))"

section \<open>The semver library\<close>

text \<open>
  \<^verbatim>\<open>semver.valid\<close> and \<^verbatim>\<open>semver.rcompare\<close> belong to the npm package
  \<^verbatim>\<open>semver\<close>, which the code calls without options, that is in strict mode. They are
  modelled after the package: a version is
  \<^verbatim>\<open>^v?(N)\.(N)\.(N)(?:-(P(?:\.P)*))?(?:\+(B(?:\.B)*))?$\<close>, where \<^verbatim>\<open>N\<close> is
  \<^verbatim>\<open>0|[1-9]\d*\<close>, \<^verbatim>\<open>P\<close> is \<^verbatim>\<open>N\<close> or \<^verbatim>\<open>\d*[a-zA-Z-][a-zA-Z0-9-]*\<close>, and
  \<^verbatim>\<open>B\<close> is \<^verbatim>\<open>[0-9A-Za-z-]+\<close>. Two things are left out: the trimming of
  surrounding whitespace, which differs between releases of the package, and the
  rounding of numeric identifiers of \<open>2 ^ 53\<close> and more to floating point in a
  comparison.
\<close>

definition numeric_identifier :: "string \<Rightarrow> bool" where
  "numeric_identifier s = (s = ''0'' \<or> (s \<noteq> [] \<and> list_all digit s \<and> hd s \<noteq> CHR ''0''))"

definition letterdashnumber :: "char \<Rightarrow> bool" where
  "letterdashnumber c = (digit c \<or> letter c \<or> c = CHR ''-'')"

definition prerelease_identifier :: "string \<Rightarrow> bool" where
  "prerelease_identifier s =
     (numeric_identifier s \<or> (list_all letterdashnumber s \<and> list_ex (\<lambda>c. \<not> digit c) s))"

definition build_identifier :: "string \<Rightarrow> bool" where
  "build_identifier s = (s \<noteq> [] \<and> list_all letterdashnumber s)"

definition number_of_digits :: "string \<Rightarrow> int" where
  "number_of_digits s = foldl (\<lambda>n c. 10 * n + (of_char c - 48)) 0 s"

text \<open>The text before the first \<open>sep\<close>, and the text after it when there is one.\<close>

definition split_first :: "char \<Rightarrow> string \<Rightarrow> string \<times> string option" where
  "split_first sep s =
     (takeWhile (\<lambda>c. c \<noteq> sep) s,
      case dropWhile (\<lambda>c. c \<noteq> sep) s of [] \<Rightarrow> None | c # rest \<Rightarrow> Some rest)"

record SemVer =
  major :: int
  minor :: int
  patch :: int
  prerelease :: "string list"
  formatted :: string

definition MAX_LENGTH :: nat where
  "MAX_LENGTH = 256"

definition MAX_SAFE_INTEGER :: int where
  "MAX_SAFE_INTEGER = 9007199254740991"

text \<open>
  \<^verbatim>\<open>new SemVer(version)\<close>. \<open>formatted\<close> is the \<^verbatim>\<open>version\<close> field that
  \<^verbatim>\<open>format()\<close> sets: the three numbers and the pre-release identifiers, without the
  leading \<^verbatim>\<open>v\<close> and without the build metadata.
\<close>

definition SemVer_new :: "string \<Rightarrow> error + SemVer" where
  "SemVer_new v =
     (if MAX_LENGTH < length v
      then Inl (TypeError ''version is longer than 256 characters'')
      else
        let plain = (case strip_prefix ''v'' v of Some r \<Rightarrow> r | None \<Rightarrow> v);
            main_pre = fst (split_first (CHR ''+'') plain);
            build = snd (split_first (CHR ''+'') plain);
            main = fst (split_first (CHR ''-'') main_pre);
            pre = snd (split_first (CHR ''-'') main_pre);
            nums = js_split (CHR ''.'') main
        in if length nums = 3 \<and> list_all numeric_identifier nums
              \<and> (case pre of None \<Rightarrow> True
                  | Some p \<Rightarrow> list_all prerelease_identifier (js_split (CHR ''.'') p))
              \<and> (case build of None \<Rightarrow> True
                  | Some b \<Rightarrow> list_all build_identifier (js_split (CHR ''.'') b))
           then
             if MAX_SAFE_INTEGER < number_of_digits (nums ! 0)
             then Inl (TypeError ''Invalid major version'')
             else if MAX_SAFE_INTEGER < number_of_digits (nums ! 1)
             then Inl (TypeError ''Invalid minor version'')
             else if MAX_SAFE_INTEGER < number_of_digits (nums ! 2)
             then Inl (TypeError ''Invalid patch version'')
             else Inr \<lparr>major = number_of_digits (nums ! 0),
                       minor = number_of_digits (nums ! 1),
                       patch = number_of_digits (nums ! 2),
                       prerelease = (case pre of None \<Rightarrow> [] | Some p \<Rightarrow> js_split (CHR ''.'') p),
                       formatted = main @ (case pre of None \<Rightarrow> [] | Some p \<Rightarrow> CHR ''-'' # p)\<rparr>
           else Inl (TypeError (''Invalid Version: '' @ v)))"

definition semver_valid :: "string \<Rightarrow> string option" where
  "semver_valid v = (case SemVer_new v of Inl err \<Rightarrow> None | Inr parsed \<Rightarrow> Some (formatted parsed))"

text \<open>The comparison \<^verbatim>\<open>a < b\<close> of two strings, by character codes.\<close>

fun string_less :: "string \<Rightarrow> string \<Rightarrow> bool" where
  "string_less [] [] = False"
| "string_less [] (d # ds) = True"
| "string_less (c # cs) [] = False"
| "string_less (c # cs) (d # ds) =
     ((of_char c :: nat) < of_char d \<or> (c = d \<and> string_less cs ds))"

definition compare_numbers :: "int \<Rightarrow> int \<Rightarrow> int" where
  "compare_numbers a b = (if a = b then 0 else if a < b then - 1 else 1)"

definition compareIdentifiers :: "string \<Rightarrow> string \<Rightarrow> int" where
  "compareIdentifiers a b =
     (let anum = (a \<noteq> [] \<and> list_all digit a);
          bnum = (b \<noteq> [] \<and> list_all digit b)
      in if anum \<and> bnum then compare_numbers (number_of_digits a) (number_of_digits b)
         else if a = b then 0
         else if anum \<and> \<not> bnum then - 1
         else if bnum \<and> \<not> anum then 1
         else if string_less a b then - 1
         else 1)"

definition compareMain :: "SemVer \<Rightarrow> SemVer \<Rightarrow> int" where
  "compareMain this other =
     (if compare_numbers (major this) (major other) \<noteq> 0
      then compare_numbers (major this) (major other)
      else if compare_numbers (minor this) (minor other) \<noteq> 0
      then compare_numbers (minor this) (minor other)
      else compare_numbers (patch this) (patch other))"

fun comparePre_loop :: "string list \<Rightarrow> string list \<Rightarrow> int" where
  "comparePre_loop [] [] = 0"
| "comparePre_loop (a # as) [] = 1"
| "comparePre_loop [] (b # bs) = - 1"
| "comparePre_loop (a # as) (b # bs) =
     (if a = b then comparePre_loop as bs else compareIdentifiers a b)"

definition comparePre :: "SemVer \<Rightarrow> SemVer \<Rightarrow> int" where
  "comparePre this other =
     (if prerelease this \<noteq> [] \<and> prerelease other = [] then - 1
      else if prerelease this = [] \<and> prerelease other \<noteq> [] then 1
      else if prerelease this = [] \<and> prerelease other = [] then 0
      else comparePre_loop (prerelease this) (prerelease other))"

definition SemVer_compare :: "SemVer \<Rightarrow> SemVer \<Rightarrow> int" where
  "SemVer_compare this other =
     (if formatted other = formatted this then 0
      else if compareMain this other \<noteq> 0 then compareMain this other
      else comparePre this other)"

text \<open>
  \<^verbatim>\<open>compare(a, b)\<close> is \<^verbatim>\<open>new SemVer(a).compare(new SemVer(b))\<close>: it throws
  when either string is not a version. \<^verbatim>\<open>rcompare(a, b)\<close> is \<^verbatim>\<open>compare(b, a)\<close>.
\<close>

definition semver_compare :: "string \<Rightarrow> string \<Rightarrow> error + int" where
  "semver_compare a b =
     (case SemVer_new a of
        Inl err \<Rightarrow> Inl err
      | Inr this \<Rightarrow>
          (case SemVer_new b of
             Inl err \<Rightarrow> Inl err
           | Inr other \<Rightarrow> Inr (SemVer_compare this other)))"

definition semver_rcompare :: "string \<Rightarrow> string \<Rightarrow> error + int" where
  "semver_rcompare a b = semver_compare b a"

section \<open>Versions encoded in branch names\<close>

text \<open>
  \<^verbatim>\<open>VERSION_FROM_BRANCH_RE = /^.*:release-?([\w-.]*)-(v[0-9].*)$/\<close>. The matcher
  follows the backtracking order of the expression: the greedy \<^verbatim>\<open>.*\<close> tries the
  last colon first, the greedy \<^verbatim>\<open>-?\<close> tries to take the hyphen first, and the greedy
  first group tries its longest run first. The result is the pair of the two groups of
  the first match found.
\<close>

definition package_char :: "char \<Rightarrow> bool" where
  "package_char c = (digit c \<or> letter c \<or> c = CHR ''_'' \<or> c = CHR ''-'' \<or> c = CHR ''.'')"

text \<open>\<^verbatim>\<open>-(v[0-9].*)$\<close> against the rest of the label, the first group being \<open>g1\<close>.\<close>

definition version_group :: "string \<Rightarrow> string \<Rightarrow> (string \<times> string) list" where
  "version_group g1 rest =
     (case strip_prefix ''-v'' rest of
        None \<Rightarrow> []
      | Some t \<Rightarrow>
          (case t of
             [] \<Rightarrow> []
           | d # tail \<Rightarrow>
               if digit d \<and> \<not> list_ex line_terminator tail
               then [(g1, CHR ''v'' # d # tail)]
               else []))"

text \<open>\<^verbatim>\<open>([\w-.]*)-(v[0-9].*)$\<close>: the first group from its longest run down to empty.\<close>

definition package_group :: "string \<Rightarrow> (string \<times> string) list" where
  "package_group r =
     concat (map (\<lambda>k. version_group (take k r) (drop k r))
                 (rev [0 ..< Suc (length (takeWhile package_char r))]))"

text \<open>\<^verbatim>\<open>-?([\w-.]*)-(v[0-9].*)$\<close>: with the optional hyphen taken, then without.\<close>

definition after_release :: "string \<Rightarrow> (string \<times> string) list" where
  "after_release r =
     (case strip_prefix ''-'' r of None \<Rightarrow> [] | Some r' \<Rightarrow> package_group r') @ package_group r"

text \<open>The matches whose \<^verbatim>\<open>^.*\<close> ends just before position \<open>i\<close>.\<close>

definition colon_at :: "string \<Rightarrow> nat \<Rightarrow> (string \<times> string) list" where
  "colon_at s i =
     (if list_ex line_terminator (take i s) then []
      else (case strip_prefix '':release'' (drop i s) of
              None \<Rightarrow> []
            | Some r \<Rightarrow> after_release r))"

definition VERSION_FROM_BRANCH_RE :: "string \<Rightarrow> (string \<times> string) option" where
  "VERSION_FROM_BRANCH_RE s =
     (case concat (map (colon_at s) (rev [0 ..< length s])) of
        [] \<Rightarrow> None
      | m # ms \<Rightarrow> Some m)"

section \<open>Merged release pull requests\<close>

record GitHubReleasePR =
  pr_number :: nat
  pr_sha :: string
  pr_version :: string

text \<open>\<^verbatim>\<open>hasAllLabels\<close>: the flag starts \<^verbatim>\<open>true\<close> and a missing label clears it.\<close>

definition hasAllLabels :: "string list \<Rightarrow> string list \<Rightarrow> bool" where
  "hasAllLabels labelsA labelsB =
     fold (\<lambda>l hasAll. if l \<notin> set labelsB then False else hasAll) labelsA True"

text \<open>
  The loop of \<^verbatim>\<open>findMergedReleasePR\<close> over the pulls of the response. Every
  \<^verbatim>\<open>continue\<close> is the recursive call on the remaining pulls.
\<close>

fun merged_pulls_loop ::
  "string \<Rightarrow> string list \<Rightarrow> string option \<Rightarrow> bool \<Rightarrow> pull list \<Rightarrow> GitHubReleasePR option" where
  "merged_pulls_loop baseLabel lbls prefix preRelease [] = None"
| "merged_pulls_loop baseLabel lbls prefix preRelease (p # ps) =
     (if lbls = [] \<or> hasAllLabels lbls (labels p) then
        (case head p of
           None \<Rightarrow> merged_pulls_loop baseLabel lbls prefix preRelease ps
         | Some h \<Rightarrow>
             (case base p of
                None \<Rightarrow> merged_pulls_loop baseLabel lbls prefix preRelease ps
              | Some b \<Rightarrow>
                  if label b \<noteq> baseLabel
                  then merged_pulls_loop baseLabel lbls prefix preRelease ps
                  else
                    (case VERSION_FROM_BRANCH_RE (label h) of
                       None \<Rightarrow> merged_pulls_loop baseLabel lbls prefix preRelease ps
                     | Some (match1, match2) \<Rightarrow>
                         if \<not> truthy (merged_at p)
                         then merged_pulls_loop baseLabel lbls prefix preRelease ps
                         else if match2 = []
                         then merged_pulls_loop baseLabel lbls prefix preRelease ps
                         else if truthy prefix \<and> Some match1 \<noteq> prefix
                         then merged_pulls_loop baseLabel lbls prefix preRelease ps
                         else if \<not> truthy prefix \<and> match1 \<noteq> []
                         then merged_pulls_loop baseLabel lbls prefix preRelease ps
                         else if \<not> preRelease \<and> CHR ''-'' \<in> set match2
                         then merged_pulls_loop baseLabel lbls prefix preRelease ps
                         else
                           (case semver_valid match2 of
                              None \<Rightarrow> merged_pulls_loop baseLabel lbls prefix preRelease ps
                            | Some normalizedVersion \<Rightarrow>
                                Some \<lparr>pr_number = number p,
                                      pr_sha = merge_commit_sha p,
                                      pr_version = normalizedVersion\<rparr>))))
      else merged_pulls_loop baseLabel lbls prefix preRelease ps)"

definition findMergedReleasePR ::
  "api \<Rightarrow> string list \<Rightarrow> nat \<Rightarrow> string option \<Rightarrow> bool \<Rightarrow> GitHub
   \<Rightarrow> (error + GitHubReleasePR option) \<times> GitHub" where
  "findMergedReleasePR a lbls perPage prefix preRelease gh =
     (case getBaseLabel a gh of
        (Inl err, gh1) \<Rightarrow> (Inl err, gh1)
      | (Inr baseLabel, gh1) \<Rightarrow>
          (case pulls_list a ''closed'' perPage of
             Inl err \<Rightarrow> (Inl err, issue (PullsList ''closed'' perPage) gh1)
           | Inr pulls \<Rightarrow>
               (Inr (merged_pulls_loop baseLabel lbls prefix preRelease pulls),
                issue (PullsList ''closed'' perPage) gh1)))"

section \<open>Tags\<close>

record GitHubTag =
  name :: string
  tag_sha :: string
  version :: string

text \<open>
  \<^verbatim>\<open>obj[key] = value\<close> on an object or \<^verbatim>\<open>Map\<close> whose keys are listed in
  insertion order: a key that is present keeps its place and takes the new value.
\<close>

fun assign :: "string \<Rightarrow> 'v \<Rightarrow> (string \<times> 'v) list \<Rightarrow> (string \<times> 'v) list" where
  "assign k v [] = [(k, v)]"
| "assign k v ((k', v') # rest) =
     (if k' = k then (k, v) # rest else (k', v') # assign k v rest)"

text \<open>
  The callback of \<^verbatim>\<open>response.data.forEach\<close> in \<^verbatim>\<open>allTags\<close>.
  \<^verbatim>\<open>data.name.replace(prefix, '')\<close> searches for the text \<^verbatim>\<open>undefined\<close> when no
  prefix is given.
\<close>

definition tags_step :: "string option \<Rightarrow> tag_item \<Rightarrow> (string \<times> GitHubTag) list
    \<Rightarrow> (string \<times> GitHubTag) list" where
  "tags_step prefix data tags =
     (if truthy prefix \<and> \<not> startsWith (item_name data) (the prefix) then tags
      else (case semver_valid (remove_first (template prefix) (item_name data)) of
              None \<Rightarrow> tags
            | Some v \<Rightarrow>
                assign v \<lparr>name = item_name data, tag_sha = item_commit_sha data, version = v\<rparr>
                  tags))"

text \<open>
  The key under which the callback stores a tag, if it stores it, with the test and the
  replacement of the code as they are written.
\<close>

definition stored_key :: "string option \<Rightarrow> tag_item \<Rightarrow> string option" where
  "stored_key prefix data =
     (if truthy prefix \<and> \<not> startsWith (item_name data) (the prefix) then None
      else semver_valid (remove_first (template prefix) (item_name data)))"

text \<open>
  \<^verbatim>\<open>allTags\<close>. The pages of the paginated listing are one answer of the service,
  which is an error when the request for any page fails.
\<close>

definition allTags ::
  "api \<Rightarrow> string option \<Rightarrow> GitHub \<Rightarrow> (error + (string \<times> GitHubTag) list) \<times> GitHub" where
  "allTags a prefix gh =
     (case tags_list a of
        Inl err \<Rightarrow> (Inl err, issue TagsList gh)
      | Inr pages \<Rightarrow> (Inr (fold (tags_step prefix) (concat pages) []), issue TagsList gh))"

text \<open>\<^verbatim>\<open>suffix.replace(/[a-zA-Z.]/, '')\<close>: the first letter or dot is removed.\<close>

fun remove_first_letter_or_dot :: "string \<Rightarrow> string" where
  "remove_first_letter_or_dot [] = []"
| "remove_first_letter_or_dot (c # cs) =
     (if letter c \<or> c = CHR ''.'' then cs else c # remove_first_letter_or_dot cs)"

text \<open>
  What the comparator of \<^verbatim>\<open>latestTagFallback\<close> does to each of its arguments
  before it compares them: \<^verbatim>\<open>const [prefix, suffix] = v.split('-')\<close> takes the first
  two pieces.
\<close>

definition pad_prerelease :: "string \<Rightarrow> string" where
  "pad_prerelease v =
     (if CHR ''-'' \<in> set v
      then (case js_split (CHR ''-'') v of
              prefix # suffix # pieces \<Rightarrow>
                prefix @ ''-'' @ padStart 6 (remove_first_letter_or_dot suffix)
            | other \<Rightarrow> v)
      else v)"

definition version_comparator :: "string \<Rightarrow> string \<Rightarrow> error + int" where
  "version_comparator v1 v2 = semver_rcompare (pad_prerelease v1) (pad_prerelease v2)"

text \<open>
  \<^verbatim>\<open>Array.prototype.sort\<close> with a comparator that may throw. The language leaves the
  sequence of comparator calls to the engine; the model is a stable insertion sort that
  puts each element, from the second on, into the sorted elements before it, calling
  the comparator with the new element first, and that stops at the first exception.
\<close>

fun sort_insert :: "('a \<Rightarrow> 'a \<Rightarrow> error + int) \<Rightarrow> 'a \<Rightarrow> 'a list \<Rightarrow> error + 'a list" where
  "sort_insert cmp x [] = Inr [x]"
| "sort_insert cmp x (y # ys) =
     (case cmp x y of
        Inl err \<Rightarrow> Inl err
      | Inr order \<Rightarrow>
          if order < 0 then Inr (x # y # ys)
          else (case sort_insert cmp x ys of
                  Inl err \<Rightarrow> Inl err
                | Inr r \<Rightarrow> Inr (y # r)))"

fun sort_into :: "('a \<Rightarrow> 'a \<Rightarrow> error + int) \<Rightarrow> 'a list \<Rightarrow> 'a list \<Rightarrow> error + 'a list" where
  "sort_into cmp [] placed = Inr placed"
| "sort_into cmp (x # xs) placed =
     (case sort_insert cmp x placed of
        Inl err \<Rightarrow> Inl err
      | Inr placed' \<Rightarrow> sort_into cmp xs placed')"

definition js_sort :: "('a \<Rightarrow> 'a \<Rightarrow> error + int) \<Rightarrow> 'a list \<Rightarrow> error + 'a list" where
  "js_sort cmp xs = sort_into cmp xs []"

text \<open>
  \<^verbatim>\<open>latestTagFallback\<close>. Reading \<^verbatim>\<open>tags[versions[0]].name\<close> throws when the
  entry is \<^verbatim>\<open>undefined\<close>.
\<close>

definition latestTagFallback ::
  "api \<Rightarrow> string option \<Rightarrow> bool \<Rightarrow> GitHub \<Rightarrow> (error + GitHubTag option) \<times> GitHub" where
  "latestTagFallback a prefix preRelease gh =
     (case allTags a prefix gh of
        (Inl err, gh1) \<Rightarrow> (Inl err, gh1)
      | (Inr tags, gh1) \<Rightarrow>
          (let versions = filter (\<lambda>t. preRelease \<or> CHR ''-'' \<notin> set t) (map fst tags)
           in if versions = [] then (Inr None, gh1)
              else (case js_sort version_comparator versions of
                      Inl err \<Rightarrow> (Inl err, gh1)
                    | Inr ordered \<Rightarrow>
                        (case (case ordered of [] \<Rightarrow> None | v0 # vs \<Rightarrow> map_of tags v0) of
                           None \<Rightarrow> (Inl (TypeError ''Cannot read properties of undefined''), gh1)
                         | Some t \<Rightarrow>
                             (Inr (Some \<lparr>name = name t, tag_sha = tag_sha t,
                                          version = version t\<rparr>), gh1)))))"

text \<open>\<^verbatim>\<open>latestTag\<close>; \<^verbatim>\<open>branchPrefix ?? prefix\<close> is the prefix of the branch.\<close>

definition latestTag ::
  "api \<Rightarrow> string option \<Rightarrow> bool \<Rightarrow> string option \<Rightarrow> GitHub
   \<Rightarrow> (error + GitHubTag option) \<times> GitHub" where
  "latestTag a prefix preRelease branchPrefix gh =
     (case findMergedReleasePR a [] 100
             (case branchPrefix of Some bp \<Rightarrow> Some bp | None \<Rightarrow> prefix) preRelease gh of
        (Inl err, gh1) \<Rightarrow> (Inl err, gh1)
      | (Inr None, gh1) \<Rightarrow> latestTagFallback a prefix preRelease gh1
      | (Inr (Some pull), gh1) \<Rightarrow>
          (Inr (Some \<lparr>name = ''v'' @ pr_version pull, tag_sha = pr_sha pull,
                       version = pr_version pull\<rparr>), gh1))"

section \<open>Commit history\<close>

text \<open>
  \<^verbatim>\<open>retries++\<close> as an argument: the value of the expression is the value of the
  variable before the increment, and the variable then holds one more.
\<close>

definition post_increment :: "nat \<Rightarrow> nat \<times> nat" where
  "post_increment retries = (retries, retries + 1)"

text \<open>
  \<^verbatim>\<open>graphqlRequest\<close> for one of the two commit-history queries. The answer already
  is the \<^verbatim>\<open>CommitsResponse\<close> that \<^verbatim>\<open>graphqlToCommits\<close> makes of it. The page
  size, the path filter and the bound on files or labels are the same in every request
  of a traversal and are not written out.
\<close>

definition graphqlRequest ::
  "api \<Rightarrow> bool \<Rightarrow> string option \<Rightarrow> GitHub \<Rightarrow> (error + CommitsResponse) \<times> GitHub" where
  "graphqlRequest a withLabels cursor gh =
     (graphql_commits a (length (issued gh)) withLabels cursor,
      issue (Graphql withLabels cursor) gh)"

text \<open>
  \<^verbatim>\<open>commitsWithFiles\<close> and \<^verbatim>\<open>commitsWithLabels\<close>. The recursive call in the
  \<^verbatim>\<open>catch\<close> block may go on forever, so a call that does not return is \<open>None\<close>.
\<close>

partial_function (option) commitsWithFiles ::
  "api \<Rightarrow> string option \<Rightarrow> nat \<Rightarrow> GitHub \<Rightarrow> ((error + CommitsResponse) \<times> GitHub) option" where
  "commitsWithFiles a cursor retries gh =
     (case getDefaultBranch a gh of
        (Inl err, gh1) \<Rightarrow> Some (Inl err, gh1)
      | (Inr baseBranch, gh1) \<Rightarrow>
          (case graphqlRequest a False cursor gh1 of
             (Inr response, gh2) \<Rightarrow> Some (Inr response, gh2)
           | (Inl err, gh2) \<Rightarrow>
               if status err = Some 502 \<and> retries < 3
               then commitsWithFiles a cursor (fst (post_increment retries)) gh2
               else Some (Inl err, gh2)))"

partial_function (option) commitsWithLabels ::
  "api \<Rightarrow> string option \<Rightarrow> nat \<Rightarrow> GitHub \<Rightarrow> ((error + CommitsResponse) \<times> GitHub) option" where
  "commitsWithLabels a cursor retries gh =
     (case getDefaultBranch a gh of
        (Inl err, gh1) \<Rightarrow> Some (Inl err, gh1)
      | (Inr baseBranch, gh1) \<Rightarrow>
          (case graphqlRequest a True cursor gh1 of
             (Inr response, gh2) \<Rightarrow> Some (Inr response, gh2)
           | (Inl err, gh2) \<Rightarrow>
               if status err = Some 502 \<and> retries < 3
               then commitsWithLabels a cursor (fst (post_increment retries)) gh2
               else Some (Inl err, gh2)))"

text \<open>
  The inner loop of \<^verbatim>\<open>commitsSinceSha\<close> over the commits of one page: the commits
  pushed so far, and whether the loop returned at the boundary.
\<close>

fun page_loop :: "string option \<Rightarrow> Commit list \<Rightarrow> Commit list \<Rightarrow> Commit list \<times> bool" where
  "page_loop boundary [] acc = (acc, False)"
| "page_loop boundary (commit # rest) acc =
     (if Some (sha commit) = boundary then (acc, True)
      else page_loop boundary rest (acc @ [commit]))"

text \<open>The \<^verbatim>\<open>for (;;)\<close> loop of \<^verbatim>\<open>commitsSinceSha\<close>.\<close>

partial_function (option) commitsSinceSha_loop ::
  "api \<Rightarrow> string option \<Rightarrow> bool \<Rightarrow> string option \<Rightarrow> Commit list \<Rightarrow> GitHub
   \<Rightarrow> ((error + Commit list) \<times> GitHub) option" where
  "commitsSinceSha_loop a boundary withLabels cursor acc gh =
     Option.bind
       (if withLabels then commitsWithLabels a cursor 0 gh else commitsWithFiles a cursor 0 gh)
       (\<lambda>fetched.
          case fetched of
            (Inl err, gh1) \<Rightarrow> Some (Inl err, gh1)
          | (Inr commitsResponse, gh1) \<Rightarrow>
              (case page_loop boundary (commits commitsResponse) acc of
                 (acc', returned) \<Rightarrow>
                   if returned then Some (Inr acc', gh1)
                   else if hasNextPage commitsResponse = False
                           \<or> \<not> truthy (endCursor commitsResponse)
                   then Some (Inr acc', gh1)
                   else commitsSinceSha_loop a boundary withLabels (endCursor commitsResponse)
                          acc' gh1))"

definition commitsSinceSha ::
  "api \<Rightarrow> string option \<Rightarrow> bool \<Rightarrow> GitHub \<Rightarrow> ((error + Commit list) \<times> GitHub) option" where
  "commitsSinceSha a boundary withLabels gh =
     commitsSinceSha_loop a boundary withLabels None [] gh"

section \<open>File contents\<close>

record GitHubFileContents =
  fc_sha :: string
  fc_content :: string
  parsedContent :: string

text \<open>
  \<^verbatim>\<open>Buffer.from(text, 'base64').toString('utf8')\<close> is a function of the runtime. The
  code is modelled for any such function \<open>decode\<close>.
\<close>

definition qualifyRef :: "string \<Rightarrow> string" where
  "qualifyRef refName =
     (if CHR ''/'' \<notin> set refName then ''refs/heads/'' @ refName else refName)"

definition getFileContentsWithSimpleAPI ::
  "(string \<Rightarrow> string) \<Rightarrow> api \<Rightarrow> string \<Rightarrow> string \<Rightarrow> GitHub
   \<Rightarrow> (error + GitHubFileContents) \<times> GitHub" where
  "getFileContentsWithSimpleAPI decode a file_path branch_name gh =
     (case contents_get a file_path (qualifyRef branch_name) of
        Inl err \<Rightarrow> (Inl err, issue (ContentsGet file_path (qualifyRef branch_name)) gh)
      | Inr resp \<Rightarrow>
          (Inr \<lparr>fc_sha = blob_sha resp, fc_content = content resp,
                parsedContent = decode (content resp)\<rparr>,
           issue (ContentsGet file_path (qualifyRef branch_name)) gh))"

definition getFileContentsWithDataAPI ::
  "(string \<Rightarrow> string) \<Rightarrow> api \<Rightarrow> string \<Rightarrow> string \<Rightarrow> GitHub
   \<Rightarrow> (error + GitHubFileContents) \<times> GitHub" where
  "getFileContentsWithDataAPI decode a file_path branch_name gh =
     (case tree_get a branch_name of
        Inl err \<Rightarrow> (Inl err, issue (TreeGet branch_name) gh)
      | Inr repoTree \<Rightarrow>
          (case find (\<lambda>entry. path entry = file_path) repoTree of
             None \<Rightarrow>
               (Inl (PlainError (''Could not find requested path: '' @ file_path)),
                issue (TreeGet branch_name) gh)
           | Some blobDescriptor \<Rightarrow>
               (case blob_get a (entry_sha blobDescriptor) of
                  Inl err \<Rightarrow>
                    (Inl err,
                     issue (BlobGet (entry_sha blobDescriptor)) (issue (TreeGet branch_name) gh))
                | Inr resp \<Rightarrow>
                    (Inr \<lparr>fc_sha = blob_sha resp, fc_content = content resp,
                          parsedContent = decode (content resp)\<rparr>,
                     issue (BlobGet (entry_sha blobDescriptor))
                       (issue (TreeGet branch_name) gh)))))"

definition getFileContentsOnBranch ::
  "(string \<Rightarrow> string) \<Rightarrow> api \<Rightarrow> string \<Rightarrow> string \<Rightarrow> GitHub
   \<Rightarrow> (error + GitHubFileContents) \<times> GitHub" where
  "getFileContentsOnBranch decode a file_path branch_name gh =
     (case getFileContentsWithSimpleAPI decode a file_path branch_name gh of
        (Inr contents, gh1) \<Rightarrow> (Inr contents, gh1)
      | (Inl err, gh1) \<Rightarrow>
          if status err = Some 403
          then getFileContentsWithDataAPI decode a file_path branch_name gh1
          else (Inl err, gh1))"

section \<open>The change set and the release pull request\<close>

text \<open>
  An \<^verbatim>\<open>Update\<close>: the path, whether the file may be created, the contents when they
  were loaded before, and \<^verbatim>\<open>updateContent\<close>, which maps the current text, or
  \<^verbatim>\<open>undefined\<close>, to the new text.
\<close>

record Update =
  update_path :: string
  create :: bool
  contents :: "GitHubFileContents option"
  updateContent :: "string option \<Rightarrow> string option"

text \<open>
  The tail of one iteration of the loop in \<^verbatim>\<open>getChangeSet\<close>, from
  \<^verbatim>\<open>const contentText\<close> on: \<open>loaded\<close> is \<^verbatim>\<open>content\<close>, absent when the file is
  to be created.
\<close>

definition stage ::
  "(string \<Rightarrow> string) \<Rightarrow> Update \<Rightarrow> GitHubFileContents option \<Rightarrow> changes \<Rightarrow> changes" where
  "stage decode update loaded changes =
     (let contentText = (case loaded of None \<Rightarrow> None | Some c \<Rightarrow> Some (decode (fc_content c)));
          updatedContent = updateContent update contentText
      in if truthy updatedContent
         then assign (update_path update) (the updatedContent, ''100644'') changes
         else changes)"

fun getChangeSet_loop ::
  "(string \<Rightarrow> string) \<Rightarrow> api \<Rightarrow> Update list \<Rightarrow> string \<Rightarrow> changes \<Rightarrow> GitHub
   \<Rightarrow> (error + changes) \<times> GitHub" where
  "getChangeSet_loop decode a [] branch_name changes gh = (Inr changes, gh)"
| "getChangeSet_loop decode a (update # rest) branch_name changes gh =
     (case contents update of
        Some loaded \<Rightarrow>
          getChangeSet_loop decode a rest branch_name
            (stage decode update (Some loaded) changes) gh
      | None \<Rightarrow>
          (case getFileContentsOnBranch decode a (update_path update) branch_name gh of
             (Inr fileContent, gh1) \<Rightarrow>
               getChangeSet_loop decode a rest branch_name
                 (stage decode update (Some fileContent) changes) gh1
           | (Inl err, gh1) \<Rightarrow>
               if status err \<noteq> Some 404 then (Inl err, gh1)
               else if \<not> create update
               then getChangeSet_loop decode a rest branch_name changes gh1
               else getChangeSet_loop decode a rest branch_name
                      (stage decode update None changes) gh1))"

definition getChangeSet ::
  "(string \<Rightarrow> string) \<Rightarrow> api \<Rightarrow> Update list \<Rightarrow> string \<Rightarrow> GitHub
   \<Rightarrow> (error + changes) \<times> GitHub" where
  "getChangeSet decode a updates branch_name gh =
     getChangeSet_loop decode a updates branch_name [] gh"


text \<open>
  The loop of \<^verbatim>\<open>openPR\<close> over the candidates: the first one whose \<^verbatim>\<open>head.ref\<close>
  is contained in \<^verbatim>\<open>refName\<close>. Reading \<^verbatim>\<open>head.ref\<close> of a pull request
  without a head throws.
\<close>

fun candidates_loop :: "string \<Rightarrow> pull list \<Rightarrow> error + pull option" where
  "candidates_loop refName [] = Inr None"
| "candidates_loop refName (releasePR # rest) =
     (case head releasePR of
        None \<Rightarrow> Inl (TypeError ''Cannot read properties of null'')
      | Some h \<Rightarrow>
          if refName \<noteq> [] \<and> js_includes refName (ref h) then Inr (Some releasePR)
          else candidates_loop refName rest)"



section \<open>Construction and the decoration of requests\<close>

text \<open>
  \<^verbatim>\<open>let probotMode = false\<close> is a variable of the module, not a field of the class:
  the constructor and the two decorating methods take its value, and the constructor
  returns the value it leaves. \<open>octokitAPIs\<close> are the injected capabilities, when given.
\<close>

record GitHubOptions =
  opt_defaultBranch :: "string option"
  opt_token :: "string option"
  opt_owner :: string
  opt_repo :: string
  opt_apiUrl :: "string option"
  opt_proxyKey :: "string option"
  octokitAPIs :: "api option"

definition GitHub_constructor :: "GitHubOptions \<Rightarrow> bool \<Rightarrow> GitHub \<times> bool" where
  "GitHub_constructor options probotMode =
     (\<lparr>defaultBranch = opt_defaultBranch options,
       token = opt_token options,
       owner = opt_owner options,
       repo = opt_repo options,
       apiUrl = (if truthy (opt_apiUrl options) then the (opt_apiUrl options)
                 else ''https://api.github.com''),
       proxyKey = opt_proxyKey options,
       issued = []\<rparr>,
      (case octokitAPIs options of None \<Rightarrow> probotMode | Some apis \<Rightarrow> True))"

text \<open>The options of a request: an object whose properties are texts or headers.\<close>

datatype option_value = Text string | Headers "(string \<times> string) list"

definition object_assign ::
  "(string \<times> option_value) list \<Rightarrow> (string \<times> option_value) list
   \<Rightarrow> (string \<times> option_value) list" where
  "object_assign target source = fold (\<lambda>(k, v). assign k v) source target"

definition authorization :: "GitHub \<Rightarrow> string" where
  "authorization gh = (if truthy (proxyKey gh) then [] else ''token '') @ template (token gh)"

definition decoratePaginateOpts ::
  "bool \<Rightarrow> GitHub \<Rightarrow> (string \<times> option_value) list \<Rightarrow> (string \<times> option_value) list" where
  "decoratePaginateOpts probotMode gh opts =
     (if probotMode then opts
      else object_assign opts [(''headers'', Headers [(''Authorization'', authorization gh)])])"

text \<open>The options that \<^verbatim>\<open>graphqlRequest\<close> hands to \<^verbatim>\<open>this.graphql\<close>.\<close>

definition graphqlRequest_opts ::
  "bool \<Rightarrow> GitHub \<Rightarrow> (string \<times> option_value) list \<Rightarrow> (string \<times> option_value) list" where
  "graphqlRequest_opts probotMode gh opts0 =
     (let opts = object_assign [] opts0
      in if \<not> probotMode
         then object_assign opts
                [(''url'', Text (apiUrl gh @ ''/graphql''
                                 @ (if truthy (proxyKey gh) then ''?key='' @ the (proxyKey gh)
                                    else []))),
                 (''headers'', Headers [(''authorization'', authorization gh),
                                        (''content-type'', ''application/vnd.github.v3+json'')])]
         else opts)"

text \<open>Constructing instances one after the other, from the given value of the variable.\<close>

fun construct_all :: "GitHubOptions list \<Rightarrow> bool \<Rightarrow> GitHub list \<times> bool" where
  "construct_all [] probotMode = ([], probotMode)"
| "construct_all (options # rest) probotMode =
     (case GitHub_constructor options probotMode of
        (gh, probotMode1) \<Rightarrow>
          (case construct_all rest probotMode1 of
             (ghs, probotMode2) \<Rightarrow> (gh # ghs, probotMode2)))"

section \<open>Notions the properties are stated with\<close>

text \<open>
  The rule for the package prefix in the words of the specification: the prefix
  extracted from the branch matches the requested one when both are absent or both are
  equal. An extracted prefix is absent when the first group of the match is empty.
\<close>

definition prefix_matches :: "string option \<Rightarrow> string \<Rightarrow> bool" where
  "prefix_matches requested extracted =
     (case requested of None \<Rightarrow> extracted = [] | Some p \<Rightarrow> extracted = p)"

text \<open>
  When a pull request of the listing qualifies as the merged release pull request, in
  the words of the specification, and the record that is then returned for it.
\<close>

definition qualifies ::
  "string \<Rightarrow> string list \<Rightarrow> string option \<Rightarrow> bool \<Rightarrow> pull \<Rightarrow> GitHubReleasePR option" where
  "qualifies baseLabel lbls prefix preRelease p =
     (case head p of
        None \<Rightarrow> None
      | Some h \<Rightarrow>
          (case VERSION_FROM_BRANCH_RE (label h) of
             None \<Rightarrow> None
           | Some (extracted, v) \<Rightarrow>
               (case semver_valid v of
                  None \<Rightarrow> None
                | Some normalizedVersion \<Rightarrow>
                    if set lbls \<subseteq> set (labels p)
                       \<and> map_option label (base p) = Some baseLabel
                       \<and> truthy (merged_at p)
                       \<and> prefix_matches prefix extracted
                       \<and> (preRelease \<or> CHR ''-'' \<notin> set v)
                    then Some \<lparr>pr_number = number p, pr_sha = merge_commit_sha p,
                               pr_version = normalizedVersion\<rparr>
                    else None)))"

definition first_qualifying :: "('a \<Rightarrow> 'b option) \<Rightarrow> 'a list \<Rightarrow> 'b option" where
  "first_qualifying f xs = (case List.map_filter f xs of [] \<Rightarrow> None | r # rs \<Rightarrow> Some r)"

text \<open>
  The name of a tag with the prefix removed, in the words of the specification: the
  name itself when no prefix is given, the rest of the name when it starts with the
  prefix that is given, and nothing when it does not start with it.
\<close>

definition without_prefix :: "string option \<Rightarrow> string \<Rightarrow> string option" where
  "without_prefix prefix n = (case prefix of None \<Rightarrow> Some n | Some p \<Rightarrow> strip_prefix p n)"

text \<open>
  The version with which a tag survives the filters of the fallback, if it does: its
  name starts with the prefix when one is given, the name with the prefix removed is a
  valid version, and the version has no hyphen unless pre-releases are asked for.
\<close>

definition surviving_version :: "string option \<Rightarrow> bool \<Rightarrow> tag_item \<Rightarrow> string option" where
  "surviving_version prefix preRelease data =
     (case without_prefix prefix (item_name data) of
        None \<Rightarrow> None
      | Some rest \<Rightarrow>
          (case semver_valid rest of
             None \<Rightarrow> None
           | Some v \<Rightarrow> if preRelease \<or> CHR ''-'' \<notin> set v then Some v else None))"

text \<open>
  When no prefix is given, \<^verbatim>\<open>data.name.replace(prefix, '')\<close> removes the first
  occurrence of the text \<^verbatim>\<open>undefined\<close> from the name of a tag. The replacement
  changes nothing when a prefix is given or no name of the listing has that text.
\<close>

definition replacement_harmless :: "string option \<Rightarrow> tag_item list \<Rightarrow> bool" where
  "replacement_harmless prefix items =
     (prefix \<noteq> None \<or> \<not> list_ex (\<lambda>data. js_includes (item_name data) ''undefined'') items)"

text \<open>
  A history of pages served from a cursor on: every page but the last announces a next
  page and gives a cursor, at which the rest of the history is served; the last page
  ends the traversal.
\<close>

fun serves ::
  "(string option \<Rightarrow> error + CommitsResponse) \<Rightarrow> string option \<Rightarrow> Commit list list \<Rightarrow> bool" where
  "serves f cursor [] = False"
| "serves f cursor (page # later) =
     (case f cursor of
        Inl err \<Rightarrow> False
      | Inr r \<Rightarrow>
          commits r = page
          \<and> (if later = [] then hasNextPage r = False \<or> \<not> truthy (endCursor r)
              else hasNextPage r \<and> truthy (endCursor r) \<and> serves f (endCursor r) later))"



text \<open>The requests an operation has issued, from the instance before and after it.\<close>

definition issued_by :: "GitHub \<Rightarrow> GitHub \<Rightarrow> call list" where
  "issued_by before after = drop (length (issued before)) (issued after)"

text \<open>
  The default branch of the instance can be resolved: it is memoized, or the request for
  the repository succeeds.
\<close>

definition default_branch_known :: "api \<Rightarrow> GitHub \<Rightarrow> bool" where
  "default_branch_known a gh =
     (truthy (defaultBranch gh) \<or> (case repos_get a of Inl err \<Rightarrow> False | Inr b \<Rightarrow> True))"

section \<open>Example inputs\<close>

text \<open>
  An instance whose default branch is known, and a service for an empty repository:
  no pull requests, no tags, no files, one empty page of history.
\<close>

definition gh0 :: GitHub where
  "gh0 = \<lparr>defaultBranch = Some ''main'', token = Some ''secret'', owner = ''owner'',
           repo = ''repo'', apiUrl = ''https://api.github.com'', proxyKey = None,
           issued = []\<rparr>"

definition api0 :: api where
  "api0 = \<lparr>repos_get = Inr ''main'',
            graphql_commits =
              (\<lambda>n withLabels cursor. Inr \<lparr>commits = [], hasNextPage = False, endCursor = None\<rparr>),
            pulls_list = (\<lambda>state perPage. Inr []),
            tags_list = Inr [],
            contents_get = (\<lambda>file_path r. Inl (HttpError 404)),
            tree_get = (\<lambda>branch_name. Inr []),
            blob_get = (\<lambda>s. Inl (HttpError 404)),
            create_pull_request = (\<lambda>changes opts. Inr 1),
            pulls_patch = (\<lambda>n t b s. Inr ())\<rparr>"

text \<open>A pull request from a release branch against \<^verbatim>\<open>owner:main\<close>.\<close>

definition pull0 :: pull where
  "pull0 = \<lparr>number = 7, labels = [''autorelease: pending''],
             head = Some \<lparr>label = ''owner:release-v1.0.0'', ref = ''release-v1.0.0''\<rparr>,
             base = Some \<lparr>label = ''owner:main'', ref = ''main''\<rparr>,
             merged_at = None, merge_commit_sha = ''abc123'', body = Some ''old body''\<rparr>"

text \<open>A merged release pull request of the package \<^verbatim>\<open>mypkg\<close>.\<close>

definition pull_mypkg :: pull where
  "pull_mypkg = \<lparr>number = 42, labels = [''release-please'', ''autorelease: pending''],
                  head = Some \<lparr>label = ''owner:release-mypkg-v1.2.3'',
                                ref = ''release-mypkg-v1.2.3''\<rparr>,
                  base = Some \<lparr>label = ''owner:main'', ref = ''main''\<rparr>,
                  merged_at = Some ''2020-06-01T00:00:00Z'', merge_commit_sha = ''def456'',
                  body = Some ''release notes''\<rparr>"

definition tag_of :: "string \<Rightarrow> tag_item" where
  "tag_of n = \<lparr>item_name = n, item_commit_sha = ''0000''\<rparr>"

text \<open>
  The options of an instance that builds its own capabilities from a token, and of one
  that is given the capabilities of a probot application.
\<close>

definition options_plain :: GitHubOptions where
  "options_plain = \<lparr>opt_defaultBranch = Some ''main'', opt_token = Some ''secret'',
                     opt_owner = ''owner'', opt_repo = ''repo'', opt_apiUrl = None,
                     opt_proxyKey = None, octokitAPIs = None\<rparr>"

definition options_probot :: GitHubOptions where
  "options_probot = options_plain\<lparr>opt_token := None, octokitAPIs := Some api0\<rparr>"

text \<open>
  A history of five commits on two pages: the first page announces the second and gives
  its cursor.
\<close>

definition commit_of :: "string \<Rightarrow> Commit" where
  "commit_of s = \<lparr>sha = s, message = ''commit '' @ s\<rparr>"

definition two_pages :: "string option \<Rightarrow> error + CommitsResponse" where
  "two_pages cursor =
     (if cursor = None
      then Inr \<lparr>commits = [commit_of ''c1'', commit_of ''c2''], hasNextPage = True,
                endCursor = Some ''cursor1''\<rparr>
      else if cursor = Some ''cursor1''
      then Inr \<lparr>commits = [commit_of ''c3'', commit_of ''c4'', commit_of ''c5''],
                hasNextPage = False, endCursor = Some ''cursor2''\<rparr>
      else Inl (HttpError 404))"







text \<open>A service whose commit-history query fails with 502 five times, then answers.\<close>

definition api_warming :: api where
  "api_warming = api0\<lparr>graphql_commits := \<lambda>n withLabels cursor.
       if n < 5 then Inl (HttpError 502)
       else Inr \<lparr>commits = [commit_of ''c1''], hasNextPage = False, endCursor = None\<rparr>\<rparr>"

text \<open>A service that denies every direct request for a file, with an empty tree.\<close>

definition api_denied :: api where
  "api_denied = api0\<lparr>contents_get := \<lambda>file_path r. Inl (HttpError 403)\<rparr>"

text \<open>An update that may create its file and writes an empty object into it.\<close>

definition update0 :: Update where
  "update0 = \<lparr>update_path = ''package.json'', create = True, contents = None,
               updateContent = (\<lambda>current. Some ''{}'')\<rparr>"

section \<open>Properties\<close>

subsection \<open>The default branch\<close>

lemma getDefaultBranch_known:
  "default_branch_known a gh \<Longrightarrow>
   \<exists>b gh1. getDefaultBranch a gh = (Inr b, gh1) \<and> default_branch_known a gh1"
  by (auto simp: default_branch_known_def getDefaultBranch_def issue_def split: sum.splits)

lemma default_branch_known_issue [simp]:
  "default_branch_known a (issue c gh) = default_branch_known a gh"
  by (simp add: default_branch_known_def issue_def)

subsection \<open>Retries of the commit-history queries\<close>

lemma commitsWithFiles_502_aux:
  assumes "commitsWithFiles a cursor retries gh = Some y"
  shows "\<not> ((\<forall>n. graphql_commits a n False cursor = Inl (HttpError 502))
            \<and> retries < 3 \<and> default_branch_known a gh)"
proof (rule commitsWithFiles.raw_induct
    [where P = "\<lambda>a cursor retries gh y.
       \<not> ((\<forall>n. graphql_commits a n False cursor = Inl (HttpError 502))
            \<and> retries < 3 \<and> default_branch_known a gh)", OF _ assms], goal_cases)
  case (1 f a cursor retries gh y)
  show ?case
  proof
    assume h: "(\<forall>n. graphql_commits a n False cursor = Inl (HttpError 502))
               \<and> retries < 3 \<and> default_branch_known a gh"
    then obtain b gh1 where g: "getDefaultBranch a gh = (Inr b, gh1)"
      and k: "default_branch_known a gh1"
      using getDefaultBranch_known by blast
    from 1(2) g h have "f a cursor retries (issue (Graphql False cursor) gh1) = Some y"
      by (simp add: graphqlRequest_def post_increment_def)
    from 1(1) [OF this] h k show False by simp
  qed
qed

lemma commitsWithLabels_502_aux:
  assumes "commitsWithLabels a cursor retries gh = Some y"
  shows "\<not> ((\<forall>n. graphql_commits a n True cursor = Inl (HttpError 502))
            \<and> retries < 3 \<and> default_branch_known a gh)"
proof (rule commitsWithLabels.raw_induct
    [where P = "\<lambda>a cursor retries gh y.
       \<not> ((\<forall>n. graphql_commits a n True cursor = Inl (HttpError 502))
            \<and> retries < 3 \<and> default_branch_known a gh)", OF _ assms], goal_cases)
  case (1 f a cursor retries gh y)
  show ?case
  proof
    assume h: "(\<forall>n. graphql_commits a n True cursor = Inl (HttpError 502))
               \<and> retries < 3 \<and> default_branch_known a gh"
    then obtain b gh1 where g: "getDefaultBranch a gh = (Inr b, gh1)"
      and k: "default_branch_known a gh1"
      using getDefaultBranch_known by blast
    from 1(2) g h have "f a cursor retries (issue (Graphql True cursor) gh1) = Some y"
      by (simp add: graphqlRequest_def post_increment_def)
    from 1(1) [OF this] h k show False by simp
  qed
qed

text \<open>
  C1. The claim is that a page fetch whose every attempt fails with status 502 makes
  four requests and then surfaces the error. The recursive call passes
  \<^verbatim>\<open>retries++\<close>, whose value is the counter before the increment, so every attempt
  runs with \<^verbatim>\<open>retries = 0\<close> and the guard \<^verbatim>\<open>retries < 3\<close> never fails: on a
  service that answers 502 to every attempt, neither \<^verbatim>\<open>commitsWithFiles\<close> nor
  \<^verbatim>\<open>commitsWithLabels\<close> ever returns, with the error or otherwise.
\<close>

theorem page_fetch_502_never_returns:
  assumes "\<forall>n. graphql_commits a n withLabels cursor = Inl (HttpError 502)"
    and "default_branch_known a gh"
  shows "(if withLabels then commitsWithLabels a cursor 0 gh
          else commitsWithFiles a cursor 0 gh) = None"
proof (cases withLabels)
  case True
  with assms commitsWithLabels_502_aux [of a cursor 0 gh]
  show ?thesis by (cases "commitsWithLabels a cursor 0 gh") auto
next
  case False
  with assms commitsWithFiles_502_aux [of a cursor 0 gh]
  show ?thesis by (cases "commitsWithFiles a cursor 0 gh") auto
qed

theorem page_fetch_502_never_returns_witness:
  "(\<forall>n. graphql_commits (api0\<lparr>graphql_commits := \<lambda>n withLabels cursor. Inl (HttpError 502)\<rparr>)
          n False None = Inl (HttpError 502))
   \<and> default_branch_known (api0\<lparr>graphql_commits := \<lambda>n withLabels cursor. Inl (HttpError 502)\<rparr>) gh0
   \<and> commitsWithFiles (api0\<lparr>graphql_commits := \<lambda>n withLabels cursor. Inl (HttpError 502)\<rparr>)
       None 0 gh0 = None"
proof -
  let ?a = "api0\<lparr>graphql_commits := \<lambda>n withLabels cursor. Inl (HttpError 502)\<rparr>"
  have h1: "\<forall>n. graphql_commits ?a n False None = Inl (HttpError 502)"
    by simp
  have h2: "default_branch_known ?a gh0"
    by (simp add: default_branch_known_def gh0_def)
  from page_fetch_502_never_returns [OF h1 h2] h1 h2 show ?thesis
    by simp
qed

text \<open>
  The other half of the claim holds: a failure with any other status is surfaced after
  the one request.
\<close>

lemma commitsWithFiles_other_status:
  assumes "getDefaultBranch a gh = (Inr b, gh1)"
    and "graphql_commits a (length (issued gh1)) False cursor = Inl err"
    and "status err \<noteq> Some 502"
  shows "commitsWithFiles a cursor retries gh = Some (Inl err, issue (Graphql False cursor) gh1)"
  using assms by (subst commitsWithFiles.simps) (simp add: graphqlRequest_def)

lemma commitsWithLabels_other_status:
  assumes "getDefaultBranch a gh = (Inr b, gh1)"
    and "graphql_commits a (length (issued gh1)) True cursor = Inl err"
    and "status err \<noteq> Some 502"
  shows "commitsWithLabels a cursor retries gh = Some (Inl err, issue (Graphql True cursor) gh1)"
  using assms by (subst commitsWithLabels.simps) (simp add: graphqlRequest_def)

text \<open>
  A service that answers 502 to the first five requests and then answers the query:
  \<^verbatim>\<open>commitsWithFiles\<close> returns the page with its sixth request, two more than the
  four requests of the claim.
\<close>

lemma warming_retry:
  "truthy (defaultBranch gh) \<Longrightarrow> length (issued gh) < 5 \<Longrightarrow>
   commitsWithFiles api_warming cursor 0 gh
   = commitsWithFiles api_warming cursor 0 (issue (Graphql False cursor) gh)"
  by (subst commitsWithFiles.simps)
     (simp add: getDefaultBranch_def graphqlRequest_def post_increment_def api_warming_def)

lemma warming_answer:
  "truthy (defaultBranch gh) \<Longrightarrow> \<not> length (issued gh) < 5 \<Longrightarrow>
   commitsWithFiles api_warming cursor 0 gh
   = Some (Inr \<lparr>commits = [commit_of ''c1''], hasNextPage = False, endCursor = None\<rparr>,
           issue (Graphql False cursor) gh)"
  by (subst commitsWithFiles.simps)
     (simp add: getDefaultBranch_def graphqlRequest_def api_warming_def)

lemma commitsWithFiles_sixth_request:
  "commitsWithFiles api_warming None 0 gh0
   = Some (Inr \<lparr>commits = [commit_of ''c1''], hasNextPage = False, endCursor = None\<rparr>,
           gh0\<lparr>issued := replicate 6 (Graphql False None)\<rparr>)"
proof -
  let ?g = "\<lambda>n. gh0\<lparr>issued := replicate n (Graphql False None)\<rparr>"
  have step: "commitsWithFiles api_warming None 0 (?g n)
              = commitsWithFiles api_warming None 0 (?g (Suc n))" if "n < 5" for n
    using that warming_retry [of "?g n" None]
    by (simp add: gh0_def issue_def replicate_append_same)
  have last: "commitsWithFiles api_warming None 0 (?g 5)
              = Some (Inr \<lparr>commits = [commit_of ''c1''], hasNextPage = False, endCursor = None\<rparr>,
                      ?g 6)"
    using warming_answer [of "?g 5" None]
    by (simp add: gh0_def issue_def replicate_append_same eval_nat_numeral)
  have "commitsWithFiles api_warming None 0 gh0 = commitsWithFiles api_warming None 0 (?g 0)"
    by (simp add: gh0_def)
  also have "\<dots> = commitsWithFiles api_warming None 0 (?g 1)" using step [of 0] by simp
  also have "\<dots> = commitsWithFiles api_warming None 0 (?g 2)" using step [of 1] by (simp add: eval_nat_numeral)
  also have "\<dots> = commitsWithFiles api_warming None 0 (?g 3)" using step [of 2] by (simp add: eval_nat_numeral)
  also have "\<dots> = commitsWithFiles api_warming None 0 (?g 4)" using step [of 3] by (simp add: eval_nat_numeral)
  also have "\<dots> = commitsWithFiles api_warming None 0 (?g 5)" using step [of 4] by (simp add: eval_nat_numeral)
  also note last
  finally show ?thesis .
qed

subsection \<open>Open release pull requests\<close>

lemma open_pulls_loop_no_labels:
  "open_pulls_loop baseLabel [] pulls acc = acc"
  by (induction pulls arbitrary: acc) (auto split: option.splits)

text \<open>
  C5. The claim is that with an empty label requirement every open pull request on the
  base label is returned. The code starts \<^verbatim>\<open>hasAllLabels\<close> at \<^verbatim>\<open>false\<close> and only a
  label of the requirement can set it, so with no required label no pull request is ever
  pushed: whatever the listing answers, a call that returns returns the empty list.
\<close>

theorem findOpenReleasePRs_no_labels_empty:
  "fst (findOpenReleasePRs a [] perPage gh) = Inr prs \<Longrightarrow> prs = []"
  by (auto simp: findOpenReleasePRs_def open_pulls_loop_no_labels
           split: prod.splits sum.splits)

theorem findOpenReleasePRs_no_labels_empty_witness:
  "pulls_list (api0\<lparr>pulls_list := \<lambda>state perPage. Inr [pull0]\<rparr>) ''open'' 100 = Inr [pull0]
   \<and> map_option label (base pull0) = Some (owner gh0 @ '':'' @ ''main'')
   \<and> fst (findOpenReleasePRs (api0\<lparr>pulls_list := \<lambda>state perPage. Inr [pull0]\<rparr>) [] 100 gh0)
       = Inr []"
proof -
  let ?a = "api0\<lparr>pulls_list := \<lambda>state perPage. Inr [pull0]\<rparr>"
  have "\<exists>prs. fst (findOpenReleasePRs ?a [] 100 gh0) = Inr prs"
    by (simp add: findOpenReleasePRs_def getBaseLabel_def getDefaultBranch_def gh0_def api0_def)
  then obtain prs where r: "fst (findOpenReleasePRs ?a [] 100 gh0) = Inr prs" ..
  from findOpenReleasePRs_no_labels_empty [OF r] r
  show ?thesis by (simp add: pull0_def gh0_def api0_def)
qed

subsection \<open>Merged release pull requests\<close>

lemma hasAllLabels_fold:
  "fold (\<lambda>l hasAll. if l \<notin> set labelsB then False else hasAll) labelsA flag
   = (flag \<and> set labelsA \<subseteq> set labelsB)"
  by (induction labelsA arbitrary: flag) auto

lemma hasAllLabels_subset: "hasAllLabels labelsA labelsB = (set labelsA \<subseteq> set labelsB)"
  by (simp add: hasAllLabels_def hasAllLabels_fold)

lemma semver_valid_empty: "semver_valid [] = None"
  by code_simp

lemma prefix_rule:
  "((truthy prefix \<and> Some m1 \<noteq> prefix) \<or> (\<not> truthy prefix \<and> m1 \<noteq> []))
   = (\<not> prefix_matches prefix m1)"
  by (cases prefix) (auto simp: prefix_matches_def)

lemma first_qualifying_Cons:
  "first_qualifying f (x # xs) = (case f x of Some r \<Rightarrow> Some r | None \<Rightarrow> first_qualifying f xs)"
  by (simp add: first_qualifying_def List.map_filter_simps split: option.splits)

lemma first_qualifying_Nil: "first_qualifying f [] = None"
  by (simp add: first_qualifying_def List.map_filter_simps)

text \<open>
  The loop of \<^verbatim>\<open>findMergedReleasePR\<close>, with its chain of \<^verbatim>\<open>continue\<close>
  statements, returns the first pull request of the listing that qualifies.
\<close>

lemma merged_pulls_loop_first_qualifying:
  "merged_pulls_loop baseLabel lbls prefix preRelease pulls
   = first_qualifying (qualifies baseLabel lbls prefix preRelease) pulls"
proof (induction pulls)
  case Nil
  show ?case by (simp add: first_qualifying_Nil)
next
  case (Cons p ps)
  have sub: "(lbls = [] \<or> hasAllLabels lbls (labels p)) = (set lbls \<subseteq> set (labels p))"
    by (auto simp: hasAllLabels_subset)
  show ?case
    unfolding merged_pulls_loop.simps first_qualifying_Cons sub Cons.IH
    using prefix_rule [of prefix]
    by (auto simp: qualifies_def semver_valid_empty split: option.splits)
qed

lemma branch_mypkg:
  "VERSION_FROM_BRANCH_RE ''owner:release-mypkg-v1.2.3'' = Some (''mypkg'', ''v1.2.3'')"
  by code_simp

lemma valid_v123: "semver_valid ''v1.2.3'' = Some ''1.2.3''"
  by code_simp

text \<open>
  C9. When the base label is resolved and the listing of closed pull requests is
  answered, \<^verbatim>\<open>findMergedReleasePR\<close> returns the first pull request that qualifies,
  and a pull request qualifies only if the prefix extracted from its branch matches the
  requested prefix: both absent, or both equal. For the pull request with head
  \<^verbatim>\<open>owner:release-mypkg-v1.2.3\<close> and base \<^verbatim>\<open>owner:main\<close> the call returns
  version \<^verbatim>\<open>1.2.3\<close> with prefix \<^verbatim>\<open>mypkg\<close> and nothing without a prefix, as the
  evaluation after the theorem shows.
\<close>

theorem findMergedReleasePR_first_qualifying:
  assumes "getBaseLabel a gh = (Inr baseLabel, gh1)"
    and "pulls_list a ''closed'' perPage = Inr pulls"
  shows "fst (findMergedReleasePR a lbls perPage prefix preRelease gh)
         = Inr (first_qualifying (qualifies baseLabel lbls prefix preRelease) pulls)"
  using assms by (simp add: findMergedReleasePR_def merged_pulls_loop_first_qualifying)

theorem findMergedReleasePR_first_qualifying_witness:
  "getBaseLabel (api0\<lparr>pulls_list := \<lambda>state perPage. Inr [pull_mypkg]\<rparr>) gh0
     = (Inr ''owner:main'', gh0)
   \<and> pulls_list (api0\<lparr>pulls_list := \<lambda>state perPage. Inr [pull_mypkg]\<rparr>) ''closed'' 100
     = Inr [pull_mypkg]
   \<and> fst (findMergedReleasePR (api0\<lparr>pulls_list := \<lambda>state perPage. Inr [pull_mypkg]\<rparr>)
            [''release-please''] 100 (Some ''mypkg'') True gh0)
       = Inr (Some \<lparr>pr_number = 42, pr_sha = ''def456'', pr_version = ''1.2.3''\<rparr>)
   \<and> fst (findMergedReleasePR (api0\<lparr>pulls_list := \<lambda>state perPage. Inr [pull_mypkg]\<rparr>)
            [''release-please''] 100 None True gh0)
       = Inr None"
proof -
  let ?a = "api0\<lparr>pulls_list := \<lambda>state perPage. Inr [pull_mypkg]\<rparr>"
  have h1: "getBaseLabel ?a gh0 = (Inr ''owner:main'', gh0)"
    by (simp add: getBaseLabel_def getDefaultBranch_def gh0_def)
  have h2: "pulls_list ?a ''closed'' 100 = Inr [pull_mypkg]"
    by simp
  have q1: "qualifies ''owner:main'' [''release-please''] (Some ''mypkg'') True pull_mypkg
            = Some \<lparr>pr_number = 42, pr_sha = ''def456'', pr_version = ''1.2.3''\<rparr>"
    by (simp add: qualifies_def pull_mypkg_def branch_mypkg valid_v123 prefix_matches_def)
  have q2: "qualifies ''owner:main'' [''release-please''] None True pull_mypkg = None"
    by (simp add: qualifies_def pull_mypkg_def branch_mypkg valid_v123 prefix_matches_def)
  from findMergedReleasePR_first_qualifying
         [OF h1 h2, of "[''release-please'']" "Some ''mypkg''" True]
       findMergedReleasePR_first_qualifying
         [OF h1 h2, of "[''release-please'']" None True]
       h1 h2 q1 q2
  show ?thesis
    by (simp add: first_qualifying_Cons first_qualifying_Nil)
qed

subsection \<open>The latest tag\<close>

lemma tags_step_stored_key:
  "tags_step prefix data tags =
     (case stored_key prefix data of
        None \<Rightarrow> tags
      | Some v \<Rightarrow> assign v \<lparr>name = item_name data, tag_sha = item_commit_sha data, version = v\<rparr> tags)"
  by (simp add: tags_step_def stored_key_def)

lemma map_fst_assign:
  "map fst (assign k v al) = (if k \<in> set (map fst al) then map fst al else map fst al @ [k])"
proof (induction al)
  case Nil
  show ?case by simp
next
  case (Cons p al)
  obtain a b where p: "p = (a, b)" by (cases p)
  show ?case
  proof (cases "a = k")
    case True
    with p show ?thesis by simp
  next
    case False
    with p Cons.IH show ?thesis
      by (cases "k \<in> set (map fst al)") simp_all
  qed
qed

lemma keys_assign: "fst ` set (assign k v al) = insert k (fst ` set al)"
proof -
  have "set (map fst (assign k v al)) = insert k (set (map fst al))"
  proof (cases "k \<in> set (map fst al)")
    case True
    then show ?thesis by (simp only: map_fst_assign if_True insert_absorb)
  next
    case False
    then show ?thesis
      by (simp only: map_fst_assign if_False set_append list.set Un_insert_right Un_empty_right)
  qed
  then show ?thesis by (simp only: set_map)
qed

lemma keys_tags_step:
  "fst ` set (tags_step prefix d acc) = fst ` set acc \<union> {v. stored_key prefix d = Some v}"
proof (cases "stored_key prefix d")
  case None
  then show ?thesis by (simp add: tags_step_stored_key)
next
  case (Some v)
  then show ?thesis by (simp add: tags_step_stored_key keys_assign)
qed

lemma keys_fold_tags_step:
  "fst ` set (fold (tags_step prefix) items acc)
   = fst ` set acc \<union> {v. \<exists>d \<in> set items. stored_key prefix d = Some v}"
proof (induction items arbitrary: acc)
  case Nil
  show ?case by simp
next
  case (Cons d ds)
  have "fst ` set (fold (tags_step prefix) (d # ds) acc)
        = fst ` set (tags_step prefix d acc)
          \<union> {v. \<exists>d \<in> set ds. stored_key prefix d = Some v}"
    by (simp only: fold_simps o_apply Cons.IH)
  also have "\<dots> = fst ` set acc \<union> {v. \<exists>d' \<in> set (d # ds). stored_key prefix d' = Some v}"
    unfolding keys_tags_step by auto
  finally show ?case .
qed

text \<open>
  The replacement of the code and the removal of the prefix agree where the
  replacement is harmless.
\<close>

lemma remove_first_absent: "\<not> js_includes s p \<Longrightarrow> remove_first p s = s"
  by (induction s) (auto simp: startsWith_def split: option.splits)

lemma remove_first_empty: "remove_first [] s = s"
  by (cases s) simp_all

lemma remove_first_prefix: "strip_prefix p s = Some rest \<Longrightarrow> remove_first p s = rest"
  by (cases s) (auto elim: strip_prefix.elims)

lemma stored_key_without_prefix:
  assumes "prefix \<noteq> None \<or> \<not> js_includes (item_name d) ''undefined''"
  shows "stored_key prefix d
         = (case without_prefix prefix (item_name d) of
              None \<Rightarrow> None
            | Some rest \<Rightarrow> semver_valid rest)"
proof (cases prefix)
  case None
  with assms show ?thesis
    by (simp add: stored_key_def without_prefix_def remove_first_absent)
next
  case (Some p)
  show ?thesis
  proof (cases "strip_prefix p (item_name d)")
    case None
    have "p \<noteq> []" using None by (cases p) simp_all
    with None Some show ?thesis
      by (simp add: stored_key_def without_prefix_def startsWith_def)
  next
    case (Some rest)
    with \<open>prefix = Some p\<close> show ?thesis
      by (simp add: stored_key_def without_prefix_def startsWith_def remove_first_prefix)
  qed
qed

lemma no_versions_iff:
  assumes "replacement_harmless prefix items"
  shows "(filter (\<lambda>t. preRelease \<or> CHR ''-'' \<notin> set t)
            (map fst (fold (tags_step prefix) items [])) = [])
         = (\<not> list_ex (\<lambda>d. surviving_version prefix preRelease d \<noteq> None) items)"
proof -
  have key: "stored_key prefix d
         = (case without_prefix prefix (item_name d) of
              None \<Rightarrow> None
            | Some rest \<Rightarrow> semver_valid rest)" if "d \<in> set items" for d
    using assms that
    by (intro stored_key_without_prefix) (auto simp: replacement_harmless_def list_ex_iff)
  have "(filter (\<lambda>t. preRelease \<or> CHR ''-'' \<notin> set t)
            (map fst (fold (tags_step prefix) items [])) = [])
        = (\<forall>v \<in> fst ` set (fold (tags_step prefix) items []).
             \<not> (preRelease \<or> CHR ''-'' \<notin> set v))"
    by (simp only: filter_empty_conv set_map)
  also have "\<dots> = (\<forall>d \<in> set items. \<forall>v. stored_key prefix d = Some v
                        \<longrightarrow> \<not> (preRelease \<or> CHR ''-'' \<notin> set v))"
    unfolding keys_fold_tags_step by auto
  also have "\<dots> = (\<forall>d \<in> set items. surviving_version prefix preRelease d = None)"
    by (auto simp: key surviving_version_def split: option.splits)
  also have "\<dots> = (\<not> list_ex (\<lambda>d. surviving_version prefix preRelease d \<noteq> None) items)"
    by (simp add: list_ex_iff)
  finally show ?thesis .
qed

lemma latestTagFallback_absent_iff:
  assumes "case tags_list a of Inl err \<Rightarrow> True
           | Inr pages \<Rightarrow> replacement_harmless prefix (concat pages)"
  shows "(fst (latestTagFallback a prefix preRelease gh) = Inr None)
         = (\<exists>pages. tags_list a = Inr pages
              \<and> \<not> list_ex (\<lambda>d. surviving_version prefix preRelease d \<noteq> None) (concat pages))"
proof (cases "tags_list a")
  case (Inl err)
  then show ?thesis by (simp add: latestTagFallback_def allTags_def)
next
  case (Inr pages)
  with assms have "replacement_harmless prefix (concat pages)" by simp
  from no_versions_iff [OF this, of preRelease] Inr show ?thesis
    by (auto simp: latestTagFallback_def allTags_def Let_def split: sum.splits option.splits)
qed

text \<open>
  C2. The claim is that \<^verbatim>\<open>latestTag\<close> returns absent exactly when no merged release
  pull request matches and the repository has no tag at all. The fallback drops the
  tags whose name does not start with the prefix, whose name with the prefix removed is
  not a valid version, and, unless pre-releases are asked for, whose version has a
  hyphen; it returns absent when no tag is left. So, where a prefix is given or no name
  of a tag has the text \<^verbatim>\<open>undefined\<close>, \<^verbatim>\<open>latestTag\<close> returns absent exactly
  when no merged release pull request qualifies, the listing of tags is answered, and
  no tag of the listing survives these filters.
\<close>

theorem latestTag_absent_iff:
  assumes "case tags_list a of Inl err \<Rightarrow> True
           | Inr pages \<Rightarrow> replacement_harmless prefix (concat pages)"
  shows "(fst (latestTag a prefix preRelease branchPrefix gh) = Inr None)
   = (fst (findMergedReleasePR a [] 100
             (case branchPrefix of Some bp \<Rightarrow> Some bp | None \<Rightarrow> prefix) preRelease gh) = Inr None
      \<and> (\<exists>pages. tags_list a = Inr pages
            \<and> \<not> list_ex (\<lambda>d. surviving_version prefix preRelease d \<noteq> None) (concat pages)))"
proof -
  obtain r gh1 where f: "findMergedReleasePR a [] 100
             (case branchPrefix of Some bp \<Rightarrow> Some bp | None \<Rightarrow> prefix) preRelease gh = (r, gh1)"
    by (cases "findMergedReleasePR a [] 100
             (case branchPrefix of Some bp \<Rightarrow> Some bp | None \<Rightarrow> prefix) preRelease gh")
  show ?thesis
  proof (cases r)
    case (Inl err)
    with f show ?thesis by (simp add: latestTag_def)
  next
    case (Inr found)
    show ?thesis
    proof (cases found)
      case None
      with f Inr latestTagFallback_absent_iff [OF assms, of preRelease gh1]
      show ?thesis by (simp add: latestTag_def)
    next
      case (Some pull)
      with f Inr show ?thesis by (simp add: latestTag_def)
    qed
  qed
qed

lemma valid_beta: "semver_valid ''v1.0.0-beta.1'' = Some ''1.0.0-beta.1''"
  by code_simp

lemma no_merged_pull_api0:
  "findMergedReleasePR (api0\<lparr>tags_list := t\<rparr>) lbls n prefix preRelease gh0
   = (Inr None, issue (PullsList ''closed'' n) gh0)"
  by (simp add: findMergedReleasePR_def getBaseLabel_def getDefaultBranch_def gh0_def api0_def)

text \<open>
  The claim as stated fails on a repository whose only tag is the pre-release
  \<^verbatim>\<open>v1.0.0-beta.1\<close>: a tag exists, and \<^verbatim>\<open>latestTag\<close> with its default
  \<^verbatim>\<open>preRelease = false\<close> returns absent.
\<close>

theorem latestTag_absent_with_tag:
  "tags_list (api0\<lparr>tags_list := Inr [[tag_of ''v1.0.0-beta.1'']]\<rparr>) = Inr [[tag_of ''v1.0.0-beta.1'']]
   \<and> fst (latestTag (api0\<lparr>tags_list := Inr [[tag_of ''v1.0.0-beta.1'']]\<rparr>) None False None gh0)
       = Inr None"
  by (simp add: latestTag_def no_merged_pull_api0 latestTagFallback_def allTags_def
        tags_step_def tag_of_def valid_beta)

lemma valid_nightly: "semver_valid ''nightly'' = None"
  by code_simp

lemma valid_v100: "semver_valid ''v1.0.0'' = Some ''1.0.0''"
  by code_simp

lemma valid_v200: "semver_valid ''v2.0.0'' = Some ''2.0.0''"
  by code_simp

lemma without_undefined:
  "\<not> js_includes ''nightly'' ''undefined''"
  "\<not> js_includes ''v1.0.0'' ''undefined''"
  by code_simp+

lemma strip_pkg:
  "strip_prefix ''pkg-'' ''v2.0.0'' = None"
  "strip_prefix ''pkg-'' ''pkg-v1.0.0'' = Some ''v1.0.0''"
  by code_simp+

theorem latestTag_absent_iff_witness:
  "replacement_harmless None (concat [[tag_of ''nightly'']])
   \<and> fst (latestTag (api0\<lparr>tags_list := Inr [[tag_of ''nightly'']]\<rparr>) None True None gh0) = Inr None
   \<and> replacement_harmless None (concat [[tag_of ''v1.0.0'']])
   \<and> fst (latestTag (api0\<lparr>tags_list := Inr [[tag_of ''v1.0.0'']]\<rparr>) None True None gh0) \<noteq> Inr None
   \<and> replacement_harmless (Some ''pkg-'') (concat [[tag_of ''v2.0.0'']])
   \<and> fst (latestTag (api0\<lparr>tags_list := Inr [[tag_of ''v2.0.0'']]\<rparr>) (Some ''pkg-'') True None gh0)
       = Inr None
   \<and> fst (latestTag (api0\<lparr>tags_list := Inr [[tag_of ''v2.0.0'', tag_of ''pkg-v1.0.0'']]\<rparr>)
            (Some ''pkg-'') True None gh0) \<noteq> Inr None"
proof -
  have h1: "replacement_harmless None (concat [[tag_of ''nightly'']])"
    and h2: "replacement_harmless None (concat [[tag_of ''v1.0.0'']])"
    and h3: "replacement_harmless (Some ''pkg-'') (concat [[tag_of ''v2.0.0'']])"
    and h4: "replacement_harmless (Some ''pkg-'')
               (concat [[tag_of ''v2.0.0'', tag_of ''pkg-v1.0.0'']])"
    by (simp_all add: replacement_harmless_def tag_of_def without_undefined
          del: js_includes.simps)
  have s1: "surviving_version None True (tag_of ''nightly'') = None"
    by (simp add: surviving_version_def without_prefix_def tag_of_def valid_nightly)
  have s2: "surviving_version None True (tag_of ''v1.0.0'') = Some ''1.0.0''"
    by (simp add: surviving_version_def without_prefix_def tag_of_def valid_v100)
  have s3: "surviving_version (Some ''pkg-'') True (tag_of ''v2.0.0'') = None"
    by (simp add: surviving_version_def without_prefix_def tag_of_def strip_pkg
          del: strip_prefix.simps)
  have s4: "surviving_version (Some ''pkg-'') True (tag_of ''pkg-v1.0.0'') = Some ''1.0.0''"
    by (simp add: surviving_version_def without_prefix_def tag_of_def strip_pkg valid_v100
          del: strip_prefix.simps)
  have c1: "case tags_list (api0\<lparr>tags_list := Inr [[tag_of ''nightly'']]\<rparr>) of
              Inl err \<Rightarrow> True | Inr pages \<Rightarrow> replacement_harmless None (concat pages)"
    using h1 by simp
  have c2: "case tags_list (api0\<lparr>tags_list := Inr [[tag_of ''v1.0.0'']]\<rparr>) of
              Inl err \<Rightarrow> True | Inr pages \<Rightarrow> replacement_harmless None (concat pages)"
    using h2 by simp
  have c3: "case tags_list (api0\<lparr>tags_list := Inr [[tag_of ''v2.0.0'']]\<rparr>) of
              Inl err \<Rightarrow> True
            | Inr pages \<Rightarrow> replacement_harmless (Some ''pkg-'') (concat pages)"
    using h3 by simp
  have c4: "case tags_list (api0\<lparr>tags_list := Inr [[tag_of ''v2.0.0'', tag_of ''pkg-v1.0.0'']]\<rparr>) of
              Inl err \<Rightarrow> True
            | Inr pages \<Rightarrow> replacement_harmless (Some ''pkg-'') (concat pages)"
    using h4 by simp
  from latestTag_absent_iff [OF c1, of True None gh0]
       latestTag_absent_iff [OF c2, of True None gh0]
       latestTag_absent_iff [OF c3, of True None gh0]
       latestTag_absent_iff [OF c4, of True None gh0]
       h1 h2 h3 h4 s1 s2 s3 s4
  show ?thesis by (simp add: no_merged_pull_api0)
qed

text \<open>
  Without the side condition the two notions part: with no prefix and the only tag
  \<^verbatim>\<open>undefinedv3.0.0\<close>, whose name is not a version, the code removes
  \<^verbatim>\<open>undefined\<close> and returns the tag as version \<^verbatim>\<open>3.0.0\<close>.
\<close>

lemma valid_undefinedv3: "semver_valid ''undefinedv3.0.0'' = None"
  by code_simp

lemma stored_undefinedv3: "stored_key None (tag_of ''undefinedv3.0.0'') = Some ''3.0.0''"
  by code_simp

lemma latestTag_undefined_removed:
  "surviving_version None True (tag_of ''undefinedv3.0.0'') = None
   \<and> fst (latestTag (api0\<lparr>tags_list := Inr [[tag_of ''undefinedv3.0.0'']]\<rparr>) None True None gh0)
       = Inr (Some \<lparr>name = ''undefinedv3.0.0'', tag_sha = ''0000'', version = ''3.0.0''\<rparr>)"
proof -
  have "tags_step None (tag_of ''undefinedv3.0.0'') []
        = [(''3.0.0'', \<lparr>name = ''undefinedv3.0.0'', tag_sha = ''0000'', version = ''3.0.0''\<rparr>)]"
    by (simp add: tags_step_stored_key stored_undefinedv3) (simp add: tag_of_def)
  then show ?thesis
    by (simp add: latestTag_def no_merged_pull_api0 latestTagFallback_def allTags_def js_sort_def
          surviving_version_def without_prefix_def valid_undefinedv3)
       (simp add: tag_of_def valid_undefinedv3)
qed

subsection \<open>The ordering of pre-releases\<close>

lemma valid_2: "semver_valid ''1.0.0-2'' = Some ''1.0.0-2''"
  by code_simp

lemma valid_10: "semver_valid ''1.0.0-10'' = Some ''1.0.0-10''"
  by code_simp

lemma pad_2: "pad_prerelease ''1.0.0-2'' = ''1.0.0-000002''"
  by code_simp

lemma pad_10: "pad_prerelease ''1.0.0-10'' = ''1.0.0-000010''"
  by code_simp

lemma new_000002: "SemVer_new ''1.0.0-000002'' = Inl (TypeError ''Invalid Version: 1.0.0-000002'')"
  by code_simp

lemma new_000010: "SemVer_new ''1.0.0-000010'' = Inl (TypeError ''Invalid Version: 1.0.0-000010'')"
  by code_simp

text \<open>
  Where letters come before the digits the padding does what its comment says: the
  library alone ranks \<^verbatim>\<open>beta2\<close> above \<^verbatim>\<open>beta10\<close>, and with the tags
  \<^verbatim>\<open>v1.0.0-beta2\<close> and \<^verbatim>\<open>v1.0.0-beta10\<close> the fallback returns the second.
\<close>

lemma valid_beta2: "semver_valid ''v1.0.0-beta2'' = Some ''1.0.0-beta2''"
  by code_simp

lemma valid_beta10: "semver_valid ''v1.0.0-beta10'' = Some ''1.0.0-beta10''"
  by code_simp

lemma rcompare_beta: "semver_rcompare ''1.0.0-beta2'' ''1.0.0-beta10'' = Inr (- 1)"
  by code_simp

lemma comparator_beta: "version_comparator ''1.0.0-beta10'' ''1.0.0-beta2'' = Inr (- 1)"
  by code_simp

lemma latestTagFallback_letters_then_digits:
  "fst (latestTagFallback
          (api0\<lparr>tags_list := Inr [[tag_of ''v1.0.0-beta2'', tag_of ''v1.0.0-beta10'']]\<rparr>)
          None True gh0)
   = Inr (Some \<lparr>name = ''v1.0.0-beta10'', tag_sha = ''0000'', version = ''1.0.0-beta10''\<rparr>)"
  by (simp add: latestTagFallback_def allTags_def tags_step_def tag_of_def valid_beta2
        valid_beta10 js_sort_def comparator_beta)

text \<open>The ordering of the library itself ranks \<^verbatim>\<open>1.0.0-10\<close> above \<^verbatim>\<open>1.0.0-2\<close>.\<close>

lemma rcompare_2_10: "semver_rcompare ''1.0.0-2'' ''1.0.0-10'' = Inr 1"
  by code_simp

text \<open>
  C4. The claim is that with exactly the tags \<^verbatim>\<open>1.0.0-2\<close> and \<^verbatim>\<open>1.0.0-10\<close>,
  \<^verbatim>\<open>latestTagFallback\<close> without prefix and with pre-releases returns the tag of
  \<^verbatim>\<open>1.0.0-10\<close>. The comparator pads the two versions to \<^verbatim>\<open>1.0.0-000002\<close> and
  \<^verbatim>\<open>1.0.0-000010\<close>, which are not versions for the library in strict mode, since a
  numeric identifier has no leading zero: \<^verbatim>\<open>semver.rcompare\<close> throws, and so does
  the call, in either order of the tags in the listing.
\<close>

theorem latestTagFallback_numeric_prerelease_throws:
  "fst (latestTagFallback (api0\<lparr>tags_list := Inr [[tag_of ''1.0.0-2'', tag_of ''1.0.0-10'']]\<rparr>)
          None True gh0)
     = Inl (TypeError ''Invalid Version: 1.0.0-000002'')
   \<and> fst (latestTagFallback (api0\<lparr>tags_list := Inr [[tag_of ''1.0.0-10'', tag_of ''1.0.0-2'']]\<rparr>)
          None True gh0)
     = Inl (TypeError ''Invalid Version: 1.0.0-000010'')"
  by (simp add: latestTagFallback_def allTags_def tags_step_def tag_of_def valid_2 valid_10
        js_sort_def version_comparator_def pad_2 pad_10 semver_rcompare_def semver_compare_def
        new_000002 new_000010)

subsection \<open>The embedding mode\<close>

lemma GitHub_constructor_flag:
  "snd (GitHub_constructor options probotMode) = (probotMode \<or> octokitAPIs options \<noteq> None)"
  by (cases "octokitAPIs options") (simp_all add: GitHub_constructor_def)

lemma construct_all_step:
  "snd (construct_all (options # rest) probotMode)
   = snd (construct_all rest (snd (GitHub_constructor options probotMode)))"
  by (simp split: prod.splits)

lemma construct_all_flag:
  "snd (construct_all os probotMode)
   = (probotMode \<or> list_ex (\<lambda>options. octokitAPIs options \<noteq> None) os)"
proof (induction os arbitrary: probotMode)
  case Nil
  show ?case by simp
next
  case (Cons options rest)
  show ?case
    by (simp add: construct_all_step Cons.IH GitHub_constructor_flag del: construct_all.simps)
qed

text \<open>
  C3. The claim is that the embedding mode is a setting of the instance, so that the
  decoration of the requests of an instance constructed without injected capabilities
  does not depend on whether another instance was constructed with them. In the code
  the mode is the variable \<^verbatim>\<open>probotMode\<close> of the module, which every instance
  reads: it is false at first, the construction of any instance with injected
  capabilities sets it, and nothing resets it. After the construction of any instances
  the variable is true exactly when one of them was given capabilities, and every
  instance decorates its requests (the \<^verbatim>\<open>Authorization\<close> header on paginated
  requests, the url and headers on queries) exactly when the variable is false.
\<close>

theorem probotMode_is_shared:
  "snd (construct_all os False) = list_ex (\<lambda>options. octokitAPIs options \<noteq> None) os
   \<and> decoratePaginateOpts (snd (construct_all os False)) gh opts
       = (if list_ex (\<lambda>options. octokitAPIs options \<noteq> None) os then opts
          else object_assign opts [(''headers'', Headers [(''Authorization'', authorization gh)])])
   \<and> graphqlRequest_opts (snd (construct_all os False)) gh opts
       = (if list_ex (\<lambda>options. octokitAPIs options \<noteq> None) os then object_assign [] opts
          else object_assign (object_assign [] opts)
                 [(''url'', Text (apiUrl gh @ ''/graphql''
                                  @ (if truthy (proxyKey gh) then ''?key='' @ the (proxyKey gh)
                                     else []))),
                  (''headers'', Headers [(''authorization'', authorization gh),
                                         (''content-type'', ''application/vnd.github.v3+json'')])])"
  by (simp add: construct_all_flag decoratePaginateOpts_def graphqlRequest_opts_def Let_def)

text \<open>
  The claim as stated fails: an instance constructed from a token adds the header when
  it is the only instance, and adds nothing when an instance with injected capabilities
  is constructed before it, or after it.
\<close>

theorem decoration_depends_on_other_instance:
  "decoratePaginateOpts (snd (GitHub_constructor options_plain False))
     (fst (GitHub_constructor options_plain False)) []
   = [(''headers'', Headers [(''Authorization'', ''token secret'')])]
   \<and> decoratePaginateOpts
       (snd (GitHub_constructor options_plain (snd (GitHub_constructor options_probot False))))
       (fst (GitHub_constructor options_plain (snd (GitHub_constructor options_probot False)))) []
     = []
   \<and> decoratePaginateOpts
       (snd (GitHub_constructor options_probot (snd (GitHub_constructor options_plain False))))
       (fst (GitHub_constructor options_plain False)) []
     = []"
  by (simp add: GitHub_constructor_def options_plain_def options_probot_def
        decoratePaginateOpts_def object_assign_def authorization_def)

theorem probotMode_is_shared_witness:
  "decoratePaginateOpts (snd (construct_all [options_probot, options_plain] False))
     (fst (GitHub_constructor options_plain True)) [] = []
   \<and> decoratePaginateOpts (snd (construct_all [options_plain] False))
     (fst (GitHub_constructor options_plain False)) []
     = [(''headers'', Headers [(''Authorization'', ''token secret'')])]"
  using probotMode_is_shared [of "[options_probot, options_plain]" "fst (GitHub_constructor options_plain True)" "[]"]
    probotMode_is_shared [of "[options_plain]" "fst (GitHub_constructor options_plain False)" "[]"]
  by (simp add: GitHub_constructor_def options_plain_def options_probot_def
        object_assign_def authorization_def)

subsection \<open>File contents\<close>

lemma issued_by_issue1: "issued_by gh (issue c gh) = [c]"
  by (simp add: issued_by_def issue_def)

lemma issued_by_issue2: "issued_by gh (issue c2 (issue c1 gh)) = [c1, c2]"
  by (simp add: issued_by_def issue_def)

lemma issued_by_issue3: "issued_by gh (issue c3 (issue c2 (issue c1 gh))) = [c1, c2, c3]"
  by (simp add: issued_by_def issue_def)

lemma missing_path:
  assumes "contents_get a p (qualifyRef b) = Inl err" and "status err = Some 403"
    and "tree_get a b = Inr tree" and "find (\<lambda>entry. path entry = p) tree = None"
  shows "getFileContentsOnBranch decode a p b gh
         = (Inl (PlainError (''Could not find requested path: '' @ p)),
            issue (TreeGet b) (issue (ContentsGet p (qualifyRef b)) gh))"
  using assms
  by (simp add: getFileContentsOnBranch_def getFileContentsWithSimpleAPI_def
        getFileContentsWithDataAPI_def)

text \<open>
  C7. The claim has three parts. The first two hold: the request for the tree of the
  branch, with which the fallback starts, is issued exactly when the direct request
  fails with status 403, and a failure with any other status is returned as it is after
  that one request. The third says that a missing path raises a NotFound error. The
  code classifies errors by \<^verbatim>\<open>err.status\<close>, NotFound being 404, and what it throws
  for a missing path is \<^verbatim>\<open>new Error('Could not find requested path: ...')\<close>, which
  has no status at all: it is neither permission-denied nor NotFound.
\<close>

theorem getFileContentsOnBranch_fallback:
  "(TreeGet b \<in> set (issued_by gh (snd (getFileContentsOnBranch decode a p b gh))))
     = (\<exists>err. contents_get a p (qualifyRef b) = Inl err \<and> status err = Some 403)
   \<and> (\<forall>err. contents_get a p (qualifyRef b) = Inl err \<longrightarrow> status err \<noteq> Some 403 \<longrightarrow>
          getFileContentsOnBranch decode a p b gh
          = (Inl err, issue (ContentsGet p (qualifyRef b)) gh))
   \<and> (\<forall>err tree. contents_get a p (qualifyRef b) = Inl err \<longrightarrow> status err = Some 403 \<longrightarrow>
          tree_get a b = Inr tree \<longrightarrow> find (\<lambda>entry. path entry = p) tree = None \<longrightarrow>
          fst (getFileContentsOnBranch decode a p b gh)
            = Inl (PlainError (''Could not find requested path: '' @ p))
          \<and> status (PlainError (''Could not find requested path: '' @ p)) = None)"
proof (intro conjI allI impI)
  show "(TreeGet b \<in> set (issued_by gh (snd (getFileContentsOnBranch decode a p b gh))))
     = (\<exists>err. contents_get a p (qualifyRef b) = Inl err \<and> status err = Some 403)"
    by (auto simp: getFileContentsOnBranch_def getFileContentsWithSimpleAPI_def
          getFileContentsWithDataAPI_def issued_by_issue1 issued_by_issue2 issued_by_issue3
          split: sum.splits option.splits)
next
  fix err
  assume "contents_get a p (qualifyRef b) = Inl err" and "status err \<noteq> Some 403"
  then show "getFileContentsOnBranch decode a p b gh
          = (Inl err, issue (ContentsGet p (qualifyRef b)) gh)"
    by (simp add: getFileContentsOnBranch_def getFileContentsWithSimpleAPI_def)
next
  fix err tree
  assume "contents_get a p (qualifyRef b) = Inl err" and "status err = Some 403"
    and "tree_get a b = Inr tree" and "find (\<lambda>entry. path entry = p) tree = None"
  then show "fst (getFileContentsOnBranch decode a p b gh)
            = Inl (PlainError (''Could not find requested path: '' @ p))"
    by (simp add: missing_path)
next
  show "status (PlainError (''Could not find requested path: '' @ p)) = None"
    by simp
qed

text \<open>
  The claim as stated fails where the direct request is denied and the tree is empty:
  the error that is raised does not have status 404.
\<close>

theorem missing_path_error_is_not_404:
  "fst (getFileContentsOnBranch id api_denied ''package.json'' ''main'' gh0)
     = Inl (PlainError ''Could not find requested path: package.json'')
   \<and> status (PlainError ''Could not find requested path: package.json'') \<noteq> Some 404"
  by (simp add: getFileContentsOnBranch_def getFileContentsWithSimpleAPI_def
        getFileContentsWithDataAPI_def api_denied_def api0_def)

theorem getFileContentsOnBranch_fallback_witness:
  "TreeGet ''main''
     \<in> set (issued_by gh0 (snd (getFileContentsOnBranch id api_denied ''package.json''
                                   ''main'' gh0)))
   \<and> getFileContentsOnBranch id api0 ''package.json'' ''main'' gh0
     = (Inl (HttpError 404), issue (ContentsGet ''package.json'' ''refs/heads/main'') gh0)
   \<and> fst (getFileContentsOnBranch id api_denied ''package.json'' ''main'' gh0)
     = Inl (PlainError ''Could not find requested path: package.json'')"
  using getFileContentsOnBranch_fallback [of "''main''" gh0 id api_denied "''package.json''"]
        getFileContentsOnBranch_fallback [of "''main''" gh0 id api0 "''package.json''"]
  by (simp add: api_denied_def api0_def qualifyRef_def)

subsection \<open>The change set\<close>

lemma getChangeSet_loop_aborts:
  assumes "u \<in> set updates" and "contents u = None"
    and "contents_get a (update_path u) (qualifyRef b) = Inl err" and "status err = Some 403"
    and "tree_get a b = Inr tree" and "find (\<lambda>entry. path entry = update_path u) tree = None"
  shows "\<exists>e. fst (getChangeSet_loop decode a updates b changes gh) = Inl e"
  using assms(1)
proof (induction updates arbitrary: changes gh)
  case Nil
  then show ?case by simp
next
  case (Cons x xs)
  show ?case
  proof (cases "x = u")
    case True
    with assms show ?thesis by (simp add: missing_path)
  next
    case False
    with Cons.prems have "u \<in> set xs" by simp
    from Cons.IH [OF this] show ?thesis
      by (auto split: option.splits prod.splits sum.splits)
  qed
qed

text \<open>
  C10. The error for a path that is missing from the tree has no status, so
  \<^verbatim>\<open>getChangeSet\<close>, which tolerates only errors of status 404, throws it again:
  when the direct request for the file of an update is denied and the tree has no such
  path, the build of the change set ends with that error if the update is the first
  one, and with some error wherever the update is in the list, whether or not the
  update may create its file.
\<close>

theorem getChangeSet_missing_path_rethrown:
  assumes "contents u = None"
    and "contents_get a (update_path u) (qualifyRef b) = Inl err" and "status err = Some 403"
    and "tree_get a b = Inr tree" and "find (\<lambda>entry. path entry = update_path u) tree = None"
  shows "status (PlainError (''Could not find requested path: '' @ update_path u)) = None
     \<and> fst (getChangeSet decode a (u # rest) b gh)
         = Inl (PlainError (''Could not find requested path: '' @ update_path u))
     \<and> (u \<in> set updates \<longrightarrow> (\<exists>e. fst (getChangeSet decode a updates b gh) = Inl e))"
  using assms getChangeSet_loop_aborts [OF _ assms, of updates decode "[]" gh]
  by (simp add: getChangeSet_def missing_path)

theorem getChangeSet_missing_path_rethrown_witness:
  "create update0 \<and> contents update0 = None
   \<and> contents_get api_denied (update_path update0) (qualifyRef ''main'') = Inl (HttpError 403)
   \<and> status (HttpError 403) = Some 403
   \<and> tree_get api_denied ''main'' = Inr []
   \<and> find (\<lambda>entry. path entry = update_path update0) [] = None
   \<and> fst (getChangeSet id api_denied [update0] ''main'' gh0)
       = Inl (PlainError ''Could not find requested path: package.json'')"
proof -
  have h1: "contents update0 = None" by (simp add: update0_def)
  have h2: "contents_get api_denied (update_path update0) (qualifyRef ''main'')
            = Inl (HttpError 403)"
    by (simp add: api_denied_def)
  have h3: "status (HttpError 403) = Some 403" by simp
  have h4: "tree_get api_denied ''main'' = Inr []" by (simp add: api_denied_def api0_def)
  have h5: "find (\<lambda>entry. path entry = update_path update0) [] = None" by simp
  from getChangeSet_missing_path_rethrown [OF h1 h2 h3 h4 h5, of id "[]" gh0]
    h1 h2 h3 h4 h5
  show ?thesis by (simp add: update0_def)
qed

subsection \<open>Commits since a boundary\<close>

lemma page_loop_takeWhile:
  "page_loop boundary page acc
   = (acc @ takeWhile (\<lambda>c. Some (sha c) \<noteq> boundary) page,
      \<not> list_all (\<lambda>c. Some (sha c) \<noteq> boundary) page)"
  by (induction page arbitrary: acc) auto

lemma page_fetch_succeeds:
  assumes "default_branch_known a gh"
    and "\<forall>n. graphql_commits a n withLabels cursor = Inr r"
  shows "\<exists>gh1. (if withLabels then commitsWithLabels a cursor 0 gh
               else commitsWithFiles a cursor 0 gh) = Some (Inr r, gh1)
              \<and> default_branch_known a gh1"
proof -
  from assms(1) obtain b gh0 where g: "getDefaultBranch a gh = (Inr b, gh0)"
    and k: "default_branch_known a gh0"
    using getDefaultBranch_known by blast
  show ?thesis
  proof (cases withLabels)
    case True
    with g assms(2) have "commitsWithLabels a cursor 0 gh
        = Some (Inr r, issue (Graphql True cursor) gh0)"
      by (subst commitsWithLabels.simps) (simp add: graphqlRequest_def)
    with True k show ?thesis by simp
  next
    case False
    with g assms(2) have "commitsWithFiles a cursor 0 gh
        = Some (Inr r, issue (Graphql False cursor) gh0)"
      by (subst commitsWithFiles.simps) (simp add: graphqlRequest_def)
    with False k show ?thesis by simp
  qed
qed

lemma commitsSinceSha_loop_serves:
  assumes "\<forall>n cursor. graphql_commits a n withLabels cursor = f cursor"
  shows "serves f cursor pages \<Longrightarrow> default_branch_known a gh \<Longrightarrow>
         \<exists>gh'. commitsSinceSha_loop a boundary withLabels cursor acc gh
               = Some (Inr (acc @ takeWhile (\<lambda>c. Some (sha c) \<noteq> boundary) (concat pages)), gh')"
proof (induction pages arbitrary: cursor acc gh)
  case Nil
  then show ?case by simp
next
  case (Cons page later)
  let ?P = "\<lambda>c. Some (sha c) \<noteq> boundary"
  from Cons.prems(1) obtain r where r: "f cursor = Inr r" and page: "commits r = page"
    and rest: "if later = [] then hasNextPage r = False \<or> \<not> truthy (endCursor r)
               else hasNextPage r \<and> truthy (endCursor r) \<and> serves f (endCursor r) later"
    by (auto split: sum.splits)
  from r assms have "\<forall>n. graphql_commits a n withLabels cursor = Inr r" by simp
  from page_fetch_succeeds [OF Cons.prems(2) this]
  obtain gh1 where fetch: "(if withLabels then commitsWithLabels a cursor 0 gh
               else commitsWithFiles a cursor 0 gh) = Some (Inr r, gh1)"
    and k1: "default_branch_known a gh1" by blast
  show ?case
  proof (cases "list_all ?P page")
    case False
    then have eq: "takeWhile ?P (concat (page # later)) = takeWhile ?P page"
      by (auto simp: list_all_iff takeWhile_append1)
    from False fetch page
    have "commitsSinceSha_loop a boundary withLabels cursor acc gh
          = Some (Inr (acc @ takeWhile ?P page), gh1)"
      by (subst commitsSinceSha_loop.simps) (simp add: page_loop_takeWhile)
    then show ?thesis unfolding eq by blast
  next
    case True
    then have tw: "takeWhile ?P page = page"
      by (simp add: list_all_iff)
    with True have pl: "page_loop boundary page acc = (acc @ page, False)"
      by (simp only: page_loop_takeWhile simp_thms)
    show ?thesis
    proof (cases "later = []")
      case True
      with tw have eq: "takeWhile ?P (concat (page # later)) = page"
        by simp
      from True rest fetch page pl
      have "commitsSinceSha_loop a boundary withLabels cursor acc gh
            = Some (Inr (acc @ page), gh1)"
        by (subst commitsSinceSha_loop.simps) auto
      then show ?thesis unfolding eq by blast
    next
      case False
      with rest have more: "hasNextPage r" "truthy (endCursor r)" "serves f (endCursor r) later"
        by simp_all
      from \<open>list_all ?P page\<close>
      have eq: "takeWhile ?P (concat (page # later)) = page @ takeWhile ?P (concat later)"
        by (simp add: list_all_iff takeWhile_append2)
      from Cons.IH [OF more(3) k1, of "acc @ page"]
      obtain gh' where "commitsSinceSha_loop a boundary withLabels (endCursor r) (acc @ page) gh1
               = Some (Inr ((acc @ page) @ takeWhile ?P (concat later)), gh')" by blast
      with more fetch page pl
      have "commitsSinceSha_loop a boundary withLabels cursor acc gh
            = Some (Inr (acc @ page @ takeWhile ?P (concat later)), gh')"
        by (subst commitsSinceSha_loop.simps) simp
      then show ?thesis unfolding eq by blast
    qed
  qed
qed

text \<open>
  C8. On a service that serves a history of pages, from an instance whose default
  branch can be resolved, \<^verbatim>\<open>commitsSinceSha\<close> returns, and what it returns is the
  longest run of commits at the start of the concatenated pages that does not have the
  boundary: the commits strictly before the boundary commit, in the order of the pages,
  when the boundary occurs on some page, and all commits of all pages when it does not
  occur or none is given.
\<close>

theorem commitsSinceSha_until_boundary:
  assumes "\<forall>n cursor. graphql_commits a n withLabels cursor = f cursor"
    and "serves f None pages"
    and "default_branch_known a gh"
  shows "\<exists>gh'. commitsSinceSha a boundary withLabels gh
               = Some (Inr (takeWhile (\<lambda>c. Some (sha c) \<noteq> boundary) (concat pages)), gh')"
  using commitsSinceSha_loop_serves [OF assms(1) assms(2) assms(3), of boundary "[]"]
  by (simp add: commitsSinceSha_def)

theorem commitsSinceSha_until_boundary_witness:
  "(\<forall>n cursor. graphql_commits (api0\<lparr>graphql_commits := \<lambda>n withLabels. two_pages\<rparr>) n False cursor
       = two_pages cursor)
   \<and> serves two_pages None [[commit_of ''c1'', commit_of ''c2''],
                             [commit_of ''c3'', commit_of ''c4'', commit_of ''c5'']]
   \<and> default_branch_known (api0\<lparr>graphql_commits := \<lambda>n withLabels. two_pages\<rparr>) gh0
   \<and> (\<exists>gh'. commitsSinceSha (api0\<lparr>graphql_commits := \<lambda>n withLabels. two_pages\<rparr>)
              (Some ''c4'') False gh0
            = Some (Inr [commit_of ''c1'', commit_of ''c2'', commit_of ''c3''], gh'))"
proof -
  let ?a = "api0\<lparr>graphql_commits := \<lambda>n withLabels. two_pages\<rparr>"
  have h1: "\<forall>n cursor. graphql_commits ?a n False cursor = two_pages cursor"
    by simp
  have h2: "serves two_pages None [[commit_of ''c1'', commit_of ''c2''],
                             [commit_of ''c3'', commit_of ''c4'', commit_of ''c5'']]"
    by (simp add: two_pages_def)
  have h3: "default_branch_known ?a gh0"
    by (simp add: default_branch_known_def gh0_def)
  from commitsSinceSha_until_boundary [OF h1 h2 h3, of "Some ''c4''"] h1 h2 h3
  show ?thesis by (simp add: commit_of_def)
qed

subsection \<open>The release pull request\<close>

text \<open>
  \<open>js_includes\<close> is containment: the second text occurs between some texts before and
  after it.
\<close>

lemma strip_prefix_iff: "(strip_prefix p s = Some rest) = (s = p @ rest)"
  by (induction p s rule: strip_prefix.induct) auto

lemma startsWith_iff: "startsWith s p = (\<exists>rest. s = p @ rest)"
  by (cases "strip_prefix p s") (auto simp: startsWith_def strip_prefix_iff [symmetric])

lemma js_includes_iff: "js_includes s p = (\<exists>before after. s = before @ p @ after)"
proof (induction s)
  case Nil
  show ?case by auto
next
  case (Cons c cs)
  show ?case
  proof
    assume "js_includes (c # cs) p"
    then consider "startsWith (c # cs) p" | "js_includes cs p" by auto
    then show "\<exists>before after. c # cs = before @ p @ after"
    proof cases
      case 1
      then obtain rest where "c # cs = p @ rest" by (auto simp: startsWith_iff)
      then have "c # cs = [] @ p @ rest" by simp
      then show ?thesis by blast
    next
      case 2
      with Cons.IH obtain before after where "cs = before @ p @ after" by blast
      then have "c # cs = (c # before) @ p @ after" by simp
      then show ?thesis by blast
    qed
  next
    assume "\<exists>before after. c # cs = before @ p @ after"
    then obtain before after where e: "c # cs = before @ p @ after" by blast
    show "js_includes (c # cs) p"
    proof (cases before)
      case Nil
      with e have "startsWith (c # cs) p" by (auto simp: startsWith_iff)
      then show ?thesis by simp
    next
      case (Cons b bs)
      with e have "cs = bs @ p @ after" by simp
      with Cons.IH have "js_includes cs p" by blast
      then show ?thesis by simp
    qed
  qed
qed

text \<open>
  What the loop returns is the first candidate whose head ref is contained, and the
  candidates before it have a head.
\<close>

lemma candidates_loop_first:
  "refName \<noteq> [] \<Longrightarrow> candidates_loop refName candidates = Inr (Some found) \<Longrightarrow>
   \<exists>before after h. candidates = before @ found # after
      \<and> head found = Some h \<and> js_includes refName (ref h)
      \<and> list_all (\<lambda>p. case head p of None \<Rightarrow> False
                                     | Some h' \<Rightarrow> \<not> js_includes refName (ref h')) before"
proof (induction candidates)
  case Nil
  then show ?case by simp
next
  case (Cons p ps)
  show ?case
  proof (cases "head p")
    case None
    with Cons.prems(2) show ?thesis by simp
  next
    case (Some h)
    note nonempty = Cons.prems(1)
    show ?thesis
    proof (cases "refName \<noteq> [] \<and> js_includes refName (ref h)")
      case True
      with Some Cons.prems have "found = p" by simp
      with Some True have "p # ps = [] @ found # ps \<and> head found = Some h
          \<and> js_includes refName (ref h)
          \<and> list_all (\<lambda>p. case head p of None \<Rightarrow> False
                                     | Some h' \<Rightarrow> \<not> js_includes refName (ref h')) []"
        by simp
      then show ?thesis by blast
    next
      case False
      with Some Cons.prems have "candidates_loop refName ps = Inr (Some found)" by simp
      from Cons.IH [OF nonempty this] obtain before after h' where
        b: "ps = before @ found # after" "head found = Some h'" "js_includes refName (ref h')"
          "list_all (\<lambda>p. case head p of None \<Rightarrow> False
                                     | Some h' \<Rightarrow> \<not> js_includes refName (ref h')) before"
        by blast
      from nonempty False have "\<not> js_includes refName (ref h)" by simp
      with b Some have "p # ps = (p # before) @ found # after \<and> head found = Some h'
          \<and> js_includes refName (ref h')
          \<and> list_all (\<lambda>p. case head p of None \<Rightarrow> False
                                     | Some h' \<Rightarrow> \<not> js_includes refName (ref h')) (p # before)"
        by simp
      then show ?thesis by blast
    qed
  qed
qed























end
